theory Spec2Isabelle
  imports Main "HOL-Library.Word"
begin

unbundle bit_operations_syntax

section \<open>The eBPF object loader (loader/Loader.cpp)\<close>

text \<open>
  A shallow embedding of the loader. C integers are 32-bit words (\<open>int\<close> and
  \<open>unsigned int\<close> share the bit pattern; \<open>sint\<close> reads the signed value), bytes are
  8-bit words, \<open>std::string\<close> is \<open>string\<close>.
\<close>

type_synonym byte = "8 word"
type_synonym c_int = "32 word"
type_synonym bpf_prog_type = "32 word"
type_synonym bpf_attach_type = "32 word"
type_synonym bpf_map_type = "32 word"

subsection \<open>Enumerators and constants of linux/bpf.h, linux/elf.h and errno.h\<close>

definition BPF_PROG_TYPE_UNSPEC :: bpf_prog_type where "BPF_PROG_TYPE_UNSPEC = 0"
definition BPF_PROG_TYPE_SOCKET_FILTER :: bpf_prog_type where "BPF_PROG_TYPE_SOCKET_FILTER = 1"
definition BPF_PROG_TYPE_KPROBE :: bpf_prog_type where "BPF_PROG_TYPE_KPROBE = 2"
definition BPF_PROG_TYPE_TRACEPOINT :: bpf_prog_type where "BPF_PROG_TYPE_TRACEPOINT = 5"
definition BPF_PROG_TYPE_PERF_EVENT :: bpf_prog_type where "BPF_PROG_TYPE_PERF_EVENT = 7"

definition BPF_MAP_TYPE_HASH :: bpf_map_type where "BPF_MAP_TYPE_HASH = 1"
definition BPF_MAP_TYPE_DEVMAP :: bpf_map_type where "BPF_MAP_TYPE_DEVMAP = 14"
definition BPF_MAP_TYPE_DEVMAP_HASH :: bpf_map_type where "BPF_MAP_TYPE_DEVMAP_HASH = 25"
definition BPF_MAP_TYPE_RINGBUF :: bpf_map_type where "BPF_MAP_TYPE_RINGBUF = 27"

definition BPF_F_RDONLY_PROG :: "32 word" where "BPF_F_RDONLY_PROG = push_bit 7 1"

definition EINVAL :: c_int where "EINVAL = 22"
definition ENOTUNIQ :: c_int where "ENOTUNIQ = 76"

text \<open>The octal literal \<open>0440\<close>.\<close>

definition mode_0440 :: "32 word" where "mode_0440 = 4 * 64 + 4 * 8 + 0"

definition BPF_FS_PATH :: string where "BPF_FS_PATH = ''/sys/fs/bpf/''"
definition BPF_LOAD_LOG_SZ :: "32 word" where "BPF_LOAD_LOG_SZ = 0xfffff"

definition BPF_CGROUP_INET_INGRESS :: bpf_attach_type where "BPF_CGROUP_INET_INGRESS = 0"
definition BPF_ATTACH_TYPE_UNSPEC :: bpf_attach_type where
  "BPF_ATTACH_TYPE_UNSPEC = BPF_CGROUP_INET_INGRESS"

subsection \<open>Process-wide values sampled from the platform\<close>

text \<open>
  \<open>page_size\<close> is the static initialised from \<open>getpagesize()\<close>; \<open>kernelVersion\<close> and
  \<open>isAtLeastKernelVersion\<close> are the helpers of bpf/BpfUtils.h; \<open>getFuseProgType\<close> is the
  integer read from /sys/fs/fuse/bpf_prog_type_fuse (\<open>BPF_PROG_TYPE_UNSPEC\<close> when the file
  is absent).
\<close>

record platform =
  page_size :: "32 word"
  kernelVersion :: "32 word"
  isAtLeastKernelVersion :: "nat \<Rightarrow> nat \<Rightarrow> nat \<Rightarrow> bool"
  getFuseProgType :: bpf_prog_type

subsection \<open>Strings: android::base::Split, StartsWith, find\_last\_of, substr, to\_string\<close>

text \<open>
  \<open>Split s delimiters\<close> cuts \<open>s\<close> at every delimiter character; the result is never
  empty, and an empty string gives one empty piece.
\<close>

fun Split :: "string \<Rightarrow> string \<Rightarrow> string list" where
  "Split [] delimiters = [[]]"
| "Split (c # s) delimiters =
     (if c \<in> set delimiters then [] # Split s delimiters
      else (case Split s delimiters of
              [] \<Rightarrow> [[c]]
            | w # ws \<Rightarrow> (c # w) # ws))"

definition StartsWith :: "string \<Rightarrow> string \<Rightarrow> bool" where
  "StartsWith s prefix = (take (length prefix) s = prefix)"

text \<open>\<open>std::string::find_last_of\<close>; \<open>None\<close> is \<open>npos\<close>.\<close>

fun find_last_of :: "string \<Rightarrow> char \<Rightarrow> nat option" where
  "find_last_of [] c = None"
| "find_last_of (x # xs) c =
     (case find_last_of xs c of
        Some n \<Rightarrow> Some (Suc n)
      | None \<Rightarrow> (if x = c then Some 0 else None))"

text \<open>\<open>s.substr(0, n)\<close>, where \<open>n\<close> may be \<open>npos\<close>.\<close>

definition substr0 :: "string \<Rightarrow> nat option \<Rightarrow> string" where
  "substr0 s n = (case n of None \<Rightarrow> s | Some k \<Rightarrow> take k s)"

definition digit :: "nat \<Rightarrow> char" where
  "digit d = ''0123456789'' ! d"

fun string_of_nat :: "nat \<Rightarrow> string" where
  "string_of_nat n =
     (if n < 10 then [digit n] else string_of_nat (n div 10) @ [digit (n mod 10)])"

definition to_string :: "int \<Rightarrow> string" where
  "to_string i = (if i < 0 then CHR ''-'' # string_of_nat (nat (- i)) else string_of_nat (nat i))"

subsection \<open>pathToObjName\<close>

definition pathToObjName :: "string \<Rightarrow> string" where
  "pathToObjName path =
     (let filename = last (Split path ''/'');
          name = substr0 filename (find_last_of filename (CHR ''.''))
      in substr0 name (find_last_of name (CHR ''@'')))"

text \<open>
  The object name as the design document words it: the final path component, with the
  trailing \<open>.o\<close> removed and anything from an \<open>@\<close> onward stripped.
\<close>

definition final_component :: "string \<Rightarrow> string" where
  "final_component path = rev (takeWhile (\<lambda>c. c \<noteq> CHR ''/'') (rev path))"

definition remove_trailing_dot_o :: "string \<Rightarrow> string" where
  "remove_trailing_dot_o s =
     (if 2 \<le> length s \<and> drop (length s - 2) s = ''.o'' then take (length s - 2) s else s)"

definition strip_from_at :: "string \<Rightarrow> string" where
  "strip_from_at s = takeWhile (\<lambda>c. c \<noteq> CHR ''@'') s"

definition spec_ObjName :: "string \<Rightarrow> string" where
  "spec_ObjName path = strip_from_at (remove_trailing_dot_o (final_component path))"

subsection \<open>The section-name table\<close>

record sectionType =
  snt_name :: string
  snt_type :: bpf_prog_type
  snt_expected_attach_type :: bpf_attach_type

definition sectionNameTypes :: "sectionType list" where
  "sectionNameTypes =
    [\<lparr>snt_name = ''kprobe/'', snt_type = BPF_PROG_TYPE_KPROBE,
      snt_expected_attach_type = BPF_ATTACH_TYPE_UNSPEC\<rparr>,
     \<lparr>snt_name = ''kretprobe/'', snt_type = BPF_PROG_TYPE_KPROBE,
      snt_expected_attach_type = BPF_ATTACH_TYPE_UNSPEC\<rparr>,
     \<lparr>snt_name = ''perf_event/'', snt_type = BPF_PROG_TYPE_PERF_EVENT,
      snt_expected_attach_type = BPF_ATTACH_TYPE_UNSPEC\<rparr>,
     \<lparr>snt_name = ''skfilter/'', snt_type = BPF_PROG_TYPE_SOCKET_FILTER,
      snt_expected_attach_type = BPF_ATTACH_TYPE_UNSPEC\<rparr>,
     \<lparr>snt_name = ''tracepoint/'', snt_type = BPF_PROG_TYPE_TRACEPOINT,
      snt_expected_attach_type = BPF_ATTACH_TYPE_UNSPEC\<rparr>,
     \<lparr>snt_name = ''uprobe/'', snt_type = BPF_PROG_TYPE_KPROBE,
      snt_expected_attach_type = BPF_ATTACH_TYPE_UNSPEC\<rparr>,
     \<lparr>snt_name = ''uretprobe/'', snt_type = BPF_PROG_TYPE_KPROBE,
      snt_expected_attach_type = BPF_ATTACH_TYPE_UNSPEC\<rparr>]"

definition getSectionType :: "platform \<Rightarrow> string \<Rightarrow> bpf_prog_type" where
  "getSectionType pf name =
     (case find (\<lambda>snt. StartsWith name (snt_name snt)) sectionNameTypes of
        Some snt \<Rightarrow> snt_type snt
      | None \<Rightarrow>
          if StartsWith name ''fuse/'' then getFuseProgType pf else BPF_PROG_TYPE_UNSPEC)"

definition getExpectedAttachType :: "string \<Rightarrow> bpf_attach_type" where
  "getExpectedAttachType name =
     (case find (\<lambda>snt. StartsWith name (snt_name snt)) sectionNameTypes of
        Some snt \<Rightarrow> snt_expected_attach_type snt
      | None \<Rightarrow> BPF_ATTACH_TYPE_UNSPEC)"

definition getSectionName :: "bpf_prog_type \<Rightarrow> string" where
  "getSectionName t =
     (case find (\<lambda>snt. snt_type snt = t) sectionNameTypes of
        Some snt \<Rightarrow> snt_name snt
      | None \<Rightarrow> ''UNKNOWN SECTION NAME '' @ to_string (sint t))"

subsection \<open>Control flow of loops and of functions\<close>

text \<open>
  A loop body either falls through to the next iteration with the updated state
  (\<open>Next\<close>, also what \<open>continue\<close> does) or leaves the enclosing function (\<open>Exit\<close>).
\<close>

datatype ('s, 'r) flow = Next 's | Exit 'r

fun for_each :: "('a \<Rightarrow> 's \<Rightarrow> ('s, 'r) flow) \<Rightarrow> 'a list \<Rightarrow> 's \<Rightarrow> ('s, 'r) flow" where
  "for_each body [] s = Next s"
| "for_each body (x # xs) s =
     (case body x s of Next s' \<Rightarrow> for_each body xs s' | Exit r \<Rightarrow> Exit r)"

text \<open>
  How a call ends: it returns, it calls \<open>abort()\<close>, or it indexes a vector or buffer
  outside its bounds (undefined behaviour in C++; nothing is said about what follows).
  \<open>OutOfBounds v i n\<close> names the vector, the index used and the vector's size.
\<close>

datatype 'a outcome = Return 'a | Abort | OutOfBounds string int nat

fun first_index :: "('a \<Rightarrow> bool) \<Rightarrow> 'a list \<Rightarrow> nat option" where
  "first_index P [] = None"
| "first_index P (x # xs) =
     (if P x then Some 0 else map_option Suc (first_index P xs))"

text \<open>Little-endian decoding of an integer field, as the target ABI lays it out.\<close>

definition le_word :: "byte list \<Rightarrow> 'a::len word" where
  "le_word bs = foldr (\<lambda>b acc. ucast b OR push_bit 8 acc) bs 0"

subsection \<open>Instructions: struct bpf\_insn seen through the byte buffer\<close>

text \<open>
  \<open>struct bpf_insn\<close> (linux/bpf.h) is 8 bytes: \<open>code\<close> (byte 0), \<open>dst_reg:4\<close> and
  \<open>src_reg:4\<close> (low and high half of byte 1), \<open>off\<close> (bytes 2-3), \<open>imm\<close> (bytes 4-7,
  little-endian). \<open>applyRelo\<close> casts the section's byte buffer to an array of them.
\<close>

definition sizeof_bpf_insn :: nat where "sizeof_bpf_insn = 8"

definition BPF_LD :: byte where "BPF_LD = 0x00"
definition BPF_IMM :: byte where "BPF_IMM = 0x00"
definition BPF_DW :: byte where "BPF_DW = 0x18"
definition BPF_PSEUDO_MAP_FD :: byte where "BPF_PSEUDO_MAP_FD = 1"

definition insn_code :: "byte list \<Rightarrow> nat \<Rightarrow> byte" where
  "insn_code insns i = insns ! (sizeof_bpf_insn * i)"

definition insn_dst_reg :: "byte list \<Rightarrow> nat \<Rightarrow> byte" where
  "insn_dst_reg insns i = take_bit 4 (insns ! (sizeof_bpf_insn * i + 1))"

definition insn_src_reg :: "byte list \<Rightarrow> nat \<Rightarrow> byte" where
  "insn_src_reg insns i = drop_bit 4 (insns ! (sizeof_bpf_insn * i + 1))"

definition insn_imm :: "byte list \<Rightarrow> nat \<Rightarrow> 32 word" where
  "insn_imm insns i = le_word (take 4 (drop (sizeof_bpf_insn * i + 4) insns))"

definition set_insn_imm :: "byte list \<Rightarrow> nat \<Rightarrow> 32 word \<Rightarrow> byte list" where
  "set_insn_imm insns i v =
     insns[sizeof_bpf_insn * i + 4 := ucast v,
           sizeof_bpf_insn * i + 5 := ucast (drop_bit 8 v),
           sizeof_bpf_insn * i + 6 := ucast (drop_bit 16 v),
           sizeof_bpf_insn * i + 7 := ucast (drop_bit 24 v)]"

definition set_insn_src_reg :: "byte list \<Rightarrow> nat \<Rightarrow> byte \<Rightarrow> byte list" where
  "set_insn_src_reg insns i r =
     insns[sizeof_bpf_insn * i + 1 :=
             take_bit 4 (insns ! (sizeof_bpf_insn * i + 1)) OR push_bit 4 r]"

subsection \<open>applyRelo\<close>

text \<open>
  \<open>insnIndex\<close> is an \<open>int\<close>: the 64-bit quotient is truncated to 32 bits and read as
  signed. The opcode is read first; the two stores happen only when it matches.
\<close>

definition insnIndex :: "64 word \<Rightarrow> int" where
  "insnIndex offset = sint (ucast (offset div word_of_nat sizeof_bpf_insn) :: 32 word)"

definition applyRelo :: "byte list \<Rightarrow> 64 word \<Rightarrow> c_int \<Rightarrow> byte list outcome" where
  "applyRelo insns offset fd =
     (let i = insnIndex offset in
      if i < 0 \<or> length insns \<le> sizeof_bpf_insn * nat i
      then OutOfBounds ''insns'' (int sizeof_bpf_insn * i) (length insns)
      else if insn_code insns (nat i) \<noteq> (BPF_LD OR BPF_IMM OR BPF_DW) then Return insns
      else if length insns < sizeof_bpf_insn * nat i + sizeof_bpf_insn
      then OutOfBounds ''insns'' (int sizeof_bpf_insn * i + 7) (length insns)
      else Return (set_insn_src_reg (set_insn_imm insns (nat i) fd) (nat i) BPF_PSEUDO_MAP_FD))"

subsection \<open>The ELF reader\<close>

record Elf64_Shdr =
  sh_name :: "32 word"
  sh_type :: "32 word"
  sh_flags :: "64 word"
  sh_addr :: "64 word"
  sh_offset :: "64 word"
  sh_size :: "64 word"
  sh_link :: "32 word"
  sh_info :: "32 word"
  sh_addralign :: "64 word"
  sh_entsize :: "64 word"

record Elf64_Sym =
  st_name :: "32 word"
  st_info :: byte
  st_other :: byte
  st_shndx :: "16 word"
  st_value :: "64 word"
  st_size :: "64 word"

text \<open>
  The object file is seen through the functions of Loader.cpp that read it with
  \<open>ifstream\<close>: each field is what that function delivers on this file, the return code
  first (0 is success) and then the output parameter. \<open>readSymTab\<close> takes the sort flag;
  \<open>is_open\<close> tells whether opening the path succeeded.
\<close>

record elfFile =
  is_open :: bool
  readSectionHeadersAll :: "c_int \<times> Elf64_Shdr list"
  readSectionByIdx :: "nat \<Rightarrow> c_int \<times> byte list"
  readSectionByName :: "string \<Rightarrow> c_int \<times> byte list"
  readSymTab :: "bool \<Rightarrow> c_int \<times> Elf64_Sym list"
  getSymName :: "32 word \<Rightarrow> c_int \<times> string"

text \<open>
  All these functions read through one \<open>ifstream\<close>. A \<open>seekg\<close> or \<open>read\<close> that fails sets
  the stream's failbit, which Loader.cpp never clears, and on a failed stream the
  \<open>seekg(0)\<close> of \<open>readElfHeader\<close> fails: each of the functions then returns -1 at once
  and leaves its output parameter as it was. The fields above are the results on a
  stream that is good at the call; \<open>failed elf\<close> is the same object read through a stream
  that has failed.
\<close>

definition failed :: "elfFile \<Rightarrow> elfFile" where
  "failed elf =
     elf\<lparr>readSectionHeadersAll := (- 1, []), readSectionByIdx := (\<lambda>id. (- 1, [])),
         readSectionByName := (\<lambda>nm. (- 1, [])), readSymTab := (\<lambda>sort. (- 1, [])),
         getSymName := (\<lambda>nameOff. (- 1, []))\<rparr>"

text \<open>
  \<open>readSectionByName\<close> and \<open>readSymTab\<close> (through \<open>readSectionByType\<close>) return -2 when no
  section header matches, with the stream untouched; every other non-zero code of theirs
  follows a \<open>seekg\<close> or \<open>read\<close> that has failed. \<open>stream_after ret elf\<close> is the stream one of
  them leaves when it returns \<open>ret\<close>.
\<close>

definition stream_after :: "c_int \<Rightarrow> elfFile \<Rightarrow> elfFile" where
  "stream_after ret elf = (if ret \<noteq> 0 \<and> ret \<noteq> - 2 then failed elf else elf)"

definition STT_FUNC :: byte where "STT_FUNC = 2"

definition ELF_ST_TYPE :: "byte \<Rightarrow> byte" where
  "ELF_ST_TYPE x = x AND 0xf"

definition ELF64_R_SYM :: "64 word \<Rightarrow> 64 word" where
  "ELF64_R_SYM i = drop_bit 32 i"

subsection \<open>getSectionSymNames and getSymNameByIdx\<close>

text \<open>The search for the section's index: an error code, or the index (-1 when absent).\<close>

fun sec_idx_loop :: "elfFile \<Rightarrow> string \<Rightarrow> Elf64_Shdr list \<Rightarrow> nat \<Rightarrow> c_int + int" where
  "sec_idx_loop elf sectionName [] i = Inr (- 1)"
| "sec_idx_loop elf sectionName (sh # shs) i =
     (case getSymName elf (sh_name sh) of
        (ret, name) \<Rightarrow>
          if ret \<noteq> 0 then Inl ret
          else if name = sectionName then Inr (int i)
          else sec_idx_loop elf sectionName shs (Suc i))"

fun sym_names_loop ::
  "elfFile \<Rightarrow> int \<Rightarrow> byte option \<Rightarrow> Elf64_Sym list \<Rightarrow> string list \<Rightarrow> c_int \<times> string list"
where
  "sym_names_loop elf sec_idx symbolType [] names = (0, names)"
| "sym_names_loop elf sec_idx symbolType (s # ss) names =
     (if symbolType \<noteq> None \<and> Some (ELF_ST_TYPE (st_info s)) \<noteq> symbolType
      then sym_names_loop elf sec_idx symbolType ss names
      else if uint (st_shndx s) = sec_idx
      then (case getSymName elf (st_name s) of
              (ret, nm) \<Rightarrow>
                if ret \<noteq> 0 then (ret, names)
                else sym_names_loop elf sec_idx symbolType ss (names @ [nm]))
      else sym_names_loop elf sec_idx symbolType ss names)"

text \<open>Every caller passes a fresh, empty \<open>names\<close> vector; the result is what is pushed.\<close>

definition getSectionSymNames ::
  "elfFile \<Rightarrow> string \<Rightarrow> byte option \<Rightarrow> c_int \<times> string list" where
  "getSectionSymNames elf sectionName symbolType =
     (case readSymTab elf True of
        (ret, symtab) \<Rightarrow>
          if ret \<noteq> 0 then (ret, [])
          else (case readSectionHeadersAll elf of
                  (ret, shTable) \<Rightarrow>
                    if ret \<noteq> 0 then (ret, [])
                    else (case sec_idx_loop elf sectionName shTable 0 of
                            Inl ret \<Rightarrow> (ret, [])
                          | Inr sec_idx \<Rightarrow>
                              if sec_idx = - 1 then (- 1, [])
                              else sym_names_loop elf sec_idx symbolType symtab [])))"

definition getSymNameByIdx :: "elfFile \<Rightarrow> c_int \<Rightarrow> (c_int \<times> string) outcome" where
  "getSymNameByIdx elf index =
     (case readSymTab elf False of
        (ret, symtab) \<Rightarrow>
          if ret \<noteq> 0 then Return (ret, [])
          else if int (length symtab) \<le> sint index then Return (- 1, [])
          else if sint index < 0 then OutOfBounds ''symtab'' (sint index) (length symtab)
          else (case getSymName elf (st_name (symtab ! nat (sint index))) of
                  (ret, name) \<Rightarrow> Return (ret, if ret = 0 then name else [])))"

subsection \<open>Code sections\<close>

record bpf_prog_def =
  uid :: "32 word"
  gid :: "32 word"
  min_kver :: "32 word"
  max_kver :: "32 word"
  optional :: bool

record codeSection =
  type :: bpf_prog_type
  expected_attach_type :: bpf_attach_type
  name :: string
  data :: "byte list"
  rel_data :: "byte list"
  prog_def :: "bpf_prog_def option"
  prog_fd :: c_int

subsection \<open>applyMapRelo\<close>

definition sizeof_Elf64_Rel :: nat where "sizeof_Elf64_Rel = 16"

definition r_offset :: "byte list \<Rightarrow> nat \<Rightarrow> 64 word" where
  "r_offset rel i = le_word (take 8 (drop (sizeof_Elf64_Rel * i) rel))"

definition r_info :: "byte list \<Rightarrow> nat \<Rightarrow> 64 word" where
  "r_info rel i = le_word (take 8 (drop (sizeof_Elf64_Rel * i + 8) rel))"

text \<open>
  The body of the loop over the relocation entries of one code section; the state is
  that section's instruction buffer. A failing symbol lookup returns from
  \<open>applyMapRelo\<close> as a whole, with the buffer as it is by then.
\<close>

definition applyMapRelo_entry ::
  "elfFile \<Rightarrow> string list \<Rightarrow> c_int list \<Rightarrow> byte list \<Rightarrow> nat \<Rightarrow> byte list
   \<Rightarrow> (byte list, byte list outcome) flow" where
  "applyMapRelo_entry elf mapNames mapFds rel i insns =
     (let symIndex = (ucast (ELF64_R_SYM (r_info rel i)) :: c_int) in
      case getSymNameByIdx elf symIndex of
        OutOfBounds v x n \<Rightarrow> Exit (OutOfBounds v x n)
      | Abort \<Rightarrow> Exit Abort
      | Return (ret, symName) \<Rightarrow>
          if ret \<noteq> 0 then Exit (Return insns)
          else (case first_index (\<lambda>n. n = symName) mapNames of
                  None \<Rightarrow> Next insns
                | Some j \<Rightarrow>
                    if length mapFds \<le> j
                    then Exit (OutOfBounds ''mapFds'' (int j) (length mapFds))
                    else (case applyRelo insns (r_offset rel i) (mapFds ! j) of
                            Return insns' \<Rightarrow> Next insns'
                          | Abort \<Rightarrow> Exit Abort
                          | OutOfBounds v x n \<Rightarrow> Exit (OutOfBounds v x n))))"

definition n_rel :: "byte list \<Rightarrow> nat" where
  "n_rel rel = nat (sint (word_of_nat (length rel div sizeof_Elf64_Rel) :: c_int))"

definition applyMapRelo_section ::
  "elfFile \<Rightarrow> string list \<Rightarrow> c_int list \<Rightarrow> nat \<Rightarrow> codeSection list
   \<Rightarrow> (codeSection list, codeSection list outcome) flow" where
  "applyMapRelo_section elf mapNames mapFds k cs =
     (case for_each (applyMapRelo_entry elf mapNames mapFds (rel_data (cs ! k)))
             [0..<n_rel (rel_data (cs ! k))] (data (cs ! k)) of
        Next insns \<Rightarrow> Next (cs[k := (cs ! k)\<lparr>data := insns\<rparr>])
      | Exit (Return insns) \<Rightarrow> Exit (Return (cs[k := (cs ! k)\<lparr>data := insns\<rparr>]))
      | Exit Abort \<Rightarrow> Exit Abort
      | Exit (OutOfBounds v x n) \<Rightarrow> Exit (OutOfBounds v x n))"

definition applyMapRelo ::
  "elfFile \<Rightarrow> c_int list \<Rightarrow> codeSection list \<Rightarrow> codeSection list outcome" where
  "applyMapRelo elf mapFds cs =
     (case getSectionSymNames elf ''maps'' None of
        (ret, mapNames) \<Rightarrow>
          if ret \<noteq> 0 then Return cs
          else (case for_each (applyMapRelo_section elf mapNames mapFds) [0..<length cs] cs of
                  Next cs' \<Rightarrow> Return cs'
                | Exit r \<Rightarrow> r))"

subsection \<open>Program and map definitions (bpf/bpf\_map\_def.h)\<close>

record bpf_map_def =
  type :: bpf_map_type
  key_size :: "32 word"
  value_size :: "32 word"
  max_entries :: "32 word"
  map_flags :: "32 word"
  zero :: "32 word"
  uid :: "32 word"
  gid :: "32 word"
  mode :: "32 word"
  min_kver :: "32 word"
  max_kver :: "32 word"
  shared :: bool

text \<open>
  The size of the two records and the way their bytes are read back as a record
  (\<open>memcpy\<close> into the vector) come with the header, which fixes the layout.
\<close>

record abi =
  sizeof_bpf_map_def :: nat
  as_bpf_map_def :: "byte list \<Rightarrow> bpf_map_def"
  sizeof_bpf_prog_def :: nat
  as_bpf_prog_def :: "byte list \<Rightarrow> bpf_prog_def"

definition records_of :: "nat \<Rightarrow> (byte list \<Rightarrow> 'a) \<Rightarrow> byte list \<Rightarrow> 'a list" where
  "records_of sz as_record bs =
     map (\<lambda>i. as_record (take sz (drop (i * sz) bs))) [0..<length bs div sz]"

definition readProgDefs :: "abi \<Rightarrow> elfFile \<Rightarrow> c_int \<times> bpf_prog_def list" where
  "readProgDefs ab elf =
     (case readSectionByName elf ''progs'' of
        (ret, pdData) \<Rightarrow>
          if ret \<noteq> 0 then (ret, [])
          else if length pdData mod sizeof_bpf_prog_def ab \<noteq> 0 then (- 1, [])
          else (0, records_of (sizeof_bpf_prog_def ab) (as_bpf_prog_def ab) pdData))"

subsection \<open>IsAllowed and readCodeSections\<close>

text \<open>The allow-list is \<open>None\<close> for a null pointer, else the array of its length.\<close>

definition IsAllowed :: "platform \<Rightarrow> bpf_prog_type \<Rightarrow> bpf_prog_type list option \<Rightarrow> bool" where
  "IsAllowed pf t allowed =
     (case allowed of
        None \<Rightarrow> True
      | Some xs \<Rightarrow>
          list_ex (\<lambda>a. if a = BPF_PROG_TYPE_UNSPEC then t = getFuseProgType pf else t = a) xs)"

text \<open>
  The inner loop over \<open>progDefNames\<close>: the first name equal to \<open>csSymNames[0] + "_def"\<close>
  selects \<open>pd[i]\<close>, which is read without a bounds check.
\<close>

definition find_prog_def ::
  "string list \<Rightarrow> string \<Rightarrow> bpf_prog_def list \<Rightarrow> bpf_prog_def option outcome" where
  "find_prog_def progDefNames wanted pd =
     (case first_index (\<lambda>n. n = wanted) progDefNames of
        None \<Rightarrow> Return None
      | Some j \<Rightarrow>
          if length pd \<le> j then OutOfBounds ''pd'' (int j) (length pd)
          else Return (Some (pd ! j)))"

definition replace_slashes :: "string \<Rightarrow> string" where
  "replace_slashes s = map (\<lambda>c. if c = CHR ''/'' then CHR ''_'' else c) s"

text \<open>
  The body of the loop over the section headers; the state is the vector \<open>cs\<close>. A
  \<open>return\<close> leaves the function with the code and the vector as filled so far.
\<close>

definition readCodeSections_body ::
  "platform \<Rightarrow> elfFile \<Rightarrow> bpf_prog_type list option \<Rightarrow> Elf64_Shdr list \<Rightarrow> bpf_prog_def list
   \<Rightarrow> string list \<Rightarrow> nat \<Rightarrow> nat \<Rightarrow> codeSection list
   \<Rightarrow> (codeSection list, (c_int \<times> codeSection list) outcome) flow" where
  "readCodeSections_body pf elf allowed shTable pd progDefNames entries i cs =
     (case getSymName elf (sh_name (shTable ! i)) of
        (ret, nm) \<Rightarrow>
     if ret \<noteq> 0 then Exit (Return (ret, cs))
     else let ptype = getSectionType pf nm in
     if ptype = BPF_PROG_TYPE_UNSPEC then Next cs
     else if \<not> IsAllowed pf ptype allowed then Exit (Return (- 1, cs))
     else let oldName = nm in
     (case readSectionByIdx elf i of
        (ret, bytes) \<Rightarrow>
     if ret \<noteq> 0 then Exit (Return (ret, cs))
     else (case getSectionSymNames elf oldName (Some STT_FUNC) of
        (ret, csSymNames) \<Rightarrow>
     if ret \<noteq> 0 \<or> csSymNames = [] then Exit (Return (ret, cs))
     else (case find_prog_def progDefNames (hd csSymNames @ ''_def'') pd of
        OutOfBounds v x n \<Rightarrow> Exit (OutOfBounds v x n)
      | Abort \<Rightarrow> Exit Abort
      | Return def \<Rightarrow>
     let cs_temp = \<lparr>codeSection.type = ptype,
                    expected_attach_type = getExpectedAttachType nm,
                    name = replace_slashes nm, data = bytes, rel_data = [],
                    prog_def = def, prog_fd = - 1\<rparr> in
     if 0 < length bytes \<and> i < entries then
       (if length shTable \<le> i + 1
        then Exit (OutOfBounds ''shTable'' (int (i + 1)) (length shTable))
        else (case getSymName elf (sh_name (shTable ! (i + 1))) of
           (ret, nm') \<Rightarrow>
        if ret \<noteq> 0 then Exit (Return (ret, cs))
        else if nm' = ''.rel'' @ oldName then
          (case readSectionByIdx elf (i + 1) of
             (ret, rel) \<Rightarrow>
               if ret \<noteq> 0 then Exit (Return (ret, cs))
               else Next (cs @ [cs_temp\<lparr>rel_data := rel\<rparr>]))
        else Next (cs @ [cs_temp])))
     else if 0 < length bytes then Next (cs @ [cs_temp])
     else Next cs))))"

text \<open>
  With an empty \<open>pd\<close> a failing lookup of the names of \<open>progs\<close> is let through (line 408),
  and the loop then reads from the stream as the lookup left it. By then the section
  headers and the string table have been read on this stream (line 400 and, within
  \<open>readProgDefs\<close>, \<open>readSectionByName\<close>), so of the reads of \<open>getSectionSymNames\<close> it is
  that of the symbol table which can fail. When \<open>readCodeSections\<close> returns 0 this is
  also the stream it leaves: every read after the lookup has succeeded.
\<close>

definition progs_names_stream :: "elfFile \<Rightarrow> elfFile" where
  "progs_names_stream elf = stream_after (fst (readSymTab elf True)) elf"

definition readCodeSections ::
  "platform \<Rightarrow> abi \<Rightarrow> elfFile \<Rightarrow> bpf_prog_type list option
   \<Rightarrow> (c_int \<times> codeSection list) outcome" where
  "readCodeSections pf ab elf allowed =
     (case readSectionHeadersAll elf of
        (ret, shTable) \<Rightarrow>
     if ret \<noteq> 0 then Return (ret, [])
     else let entries = length shTable in
     (case readProgDefs ab elf of
        (ret, pd) \<Rightarrow>
     if ret \<noteq> 0 then Return (ret, [])
     else (case getSectionSymNames elf ''progs'' None of
        (ret, progDefNames) \<Rightarrow>
     if pd \<noteq> [] \<and> ret \<noteq> 0 then Return (ret, [])
     else (case for_each (readCodeSections_body pf (progs_names_stream elf) allowed shTable pd
                            progDefNames entries) [0..<entries] [] of
             Next cs \<Rightarrow> Return (0, cs)
           | Exit r \<Rightarrow> r))))"

subsection \<open>The kernel and the BPF filesystem\<close>

text \<open>
  The calls the loader makes (syscall wrappers of BpfSyscallWrappers.h and libc). The
  two \<open>bpf()\<close> requests carry the fields the loader fills in: for \<open>BPF_MAP_CREATE\<close> the map
  type, key size, value size, max entries, flags and name; for \<open>BPF_PROG_LOAD\<close> the
  program type, kernel version, license, instructions, instruction count, log level,
  log size, expected attach type and name.
\<close>

datatype syscall =
    access string
  | mapRetrieveRO string
  | retrieveProgram string
  | BPF_MAP_CREATE bpf_map_type "32 word" "32 word" "32 word" "32 word" string
  | BPF_PROG_LOAD bpf_prog_type "32 word" string "byte list" "32 word" "32 word" "32 word"
      bpf_attach_type string
  | bpfGetFdMapType c_int
  | bpfGetFdKeySize c_int
  | bpfGetFdValueSize c_int
  | bpfGetFdMaxEntries c_int
  | bpfGetFdMapFlags c_int
  | bpfGetFdMapId c_int
  | bpfGetFdProgId c_int
  | bpfFdPin c_int string
  | chmod string "32 word"
  | chown string "32 word" "32 word"

text \<open>
  What the loader does that is visible outside: the calls it issues, in order, and the
  lines it logs (of the log calls, those whose text is a literal or a plain string are
  recorded; the formatted diagnostics are left out).
\<close>

datatype event = Syscall syscall | ALOGW string | ALOGE string

text \<open>
  A reply is the value returned, \<open>errno\<close> after the call, and for \<open>BPF_PROG_LOAD\<close> the
  text the verifier left in \<open>log_buf\<close>. The kernel is any function from the history
  and the call to a reply: nothing is assumed about how it answers.
\<close>

record reply =
  rv :: c_int
  errno :: c_int
  log_buf :: string

type_synonym kernel = "event list \<Rightarrow> syscall \<Rightarrow> reply"

definition sys :: "kernel \<Rightarrow> syscall \<Rightarrow> event list \<Rightarrow> reply \<times> event list" where
  "sys K c tr = (K tr c, tr @ [Syscall c])"

text \<open>\<open>unique_fd::ok()\<close>; an empty \<open>unique_fd\<close> holds -1.\<close>

definition ok :: "c_int \<Rightarrow> bool" where
  "ok fd = (0 \<le> sint fd)"

subsection \<open>mapMatchesExpectations\<close>

definition desired_map_flags :: "bpf_map_def \<Rightarrow> bpf_map_type \<Rightarrow> 32 word" where
  "desired_map_flags mapDef ty =
     (if ty = BPF_MAP_TYPE_DEVMAP \<or> ty = BPF_MAP_TYPE_DEVMAP_HASH
      then map_flags mapDef OR BPF_F_RDONLY_PROG else map_flags mapDef)"

definition desired_max_entries :: "platform \<Rightarrow> bpf_map_def \<Rightarrow> bpf_map_type \<Rightarrow> 32 word" where
  "desired_max_entries pf mapDef ty =
     (if ty = BPF_MAP_TYPE_RINGBUF \<and> max_entries mapDef < page_size pf then page_size pf
      else max_entries mapDef)"

definition mapMatchesExpectations ::
  "platform \<Rightarrow> kernel \<Rightarrow> c_int \<Rightarrow> string \<Rightarrow> bpf_map_def \<Rightarrow> bpf_map_type \<Rightarrow> event list
   \<Rightarrow> bool \<times> event list" where
  "mapMatchesExpectations pf K fd mapName mapDef ty tr =
     (let (fd_type, tr) = sys K (bpfGetFdMapType fd) tr;
          (fd_key_size, tr) = sys K (bpfGetFdKeySize fd) tr;
          (fd_value_size, tr) = sys K (bpfGetFdValueSize fd) tr;
          (fd_max_entries, tr) = sys K (bpfGetFdMaxEntries fd) tr;
          (fd_map_flags, tr) = sys K (bpfGetFdMapFlags fd) tr
      in (rv fd_type = ty \<and>
          rv fd_key_size = key_size mapDef \<and>
          rv fd_value_size = value_size mapDef \<and>
          rv fd_max_entries = desired_max_entries pf mapDef ty \<and>
          rv fd_map_flags = desired_map_flags mapDef ty, tr))"

subsection \<open>createMaps\<close>

text \<open>The local \<open>type\<close>: a device-map hash becomes a plain hash before kernel 5.4.\<close>

definition createMaps_type :: "platform \<Rightarrow> bpf_map_def \<Rightarrow> bpf_map_type" where
  "createMaps_type pf m =
     (if bpf_map_def.type m = BPF_MAP_TYPE_DEVMAP_HASH \<and> \<not> isAtLeastKernelVersion pf 5 4 0
      then BPF_MAP_TYPE_HASH else bpf_map_def.type m)"

text \<open>The local \<open>max_entries\<close>.\<close>

definition createMaps_max_entries :: "platform \<Rightarrow> bpf_map_def \<Rightarrow> bpf_map_type \<Rightarrow> 32 word" where
  "createMaps_max_entries pf m ty =
     (if ty = BPF_MAP_TYPE_RINGBUF \<and> max_entries m < page_size pf then page_size pf
      else max_entries m)"

definition mapPinLoc :: "string \<Rightarrow> string \<Rightarrow> bpf_map_def \<Rightarrow> string \<Rightarrow> string" where
  "mapPinLoc pfx objName m mapName =
     BPF_FS_PATH @ pfx @ ''map_'' @ (if shared m then [] else objName) @ ''_'' @ mapName"

text \<open>
  Reuse or create: when the pin exists the map is retrieved read-only, else it is created
  with the map definition's own flags. The result is \<open>reuse\<close>, the reply that holds the
  descriptor and \<open>saved_errno\<close>, and the history.
\<close>

definition createMaps_fd ::
  "platform \<Rightarrow> kernel \<Rightarrow> string \<Rightarrow> string \<Rightarrow> bpf_map_def \<Rightarrow> string \<Rightarrow> event list
   \<Rightarrow> bool \<times> reply \<times> event list" where
  "createMaps_fd pf K pfx objName m mapName tr =
     (let ty = createMaps_type pf m;
          (a, tr) = sys K (access (mapPinLoc pfx objName m mapName)) tr
      in if rv a = 0
         then (let (f, tr) = sys K (mapRetrieveRO (mapPinLoc pfx objName m mapName)) tr
               in (True, f, tr))
         else (let (f, tr) = sys K (BPF_MAP_CREATE ty (key_size m) (value_size m)
                                      (createMaps_max_entries pf m ty) (map_flags m)
                                      (take 15 mapName)) tr
               in (False, f, tr)))"

text \<open>
  The body of the loop over the map names. The state is \<open>ret\<close>, the vector \<open>mapFds\<close>
  and the history. Descriptors released at scope exit are not traced.
\<close>

definition createMaps_body ::
  "platform \<Rightarrow> kernel \<Rightarrow> string \<Rightarrow> string \<Rightarrow> bpf_map_def list \<Rightarrow> string list \<Rightarrow> nat
   \<Rightarrow> c_int \<times> c_int list \<times> event list
   \<Rightarrow> (c_int \<times> c_int list \<times> event list, (c_int \<times> c_int list \<times> event list) outcome) flow"
where
  "createMaps_body pf K objName pfx md mapNames i st =
     (case st of (ret, mapFds, tr) \<Rightarrow>
     if length md \<le> i then Exit (OutOfBounds ''md'' (int i) (length md))
     else if zero (md ! i) \<noteq> 0 then Exit Abort
     else if kernelVersion pf < bpf_map_def.min_kver (md ! i) then Next (ret, mapFds @ [- 1], tr)
     else if bpf_map_def.max_kver (md ! i) \<le> kernelVersion pf then Next (ret, mapFds @ [- 1], tr)
     else
       (case createMaps_fd pf K pfx objName (md ! i) (mapNames ! i) tr of
          (reuse, f, tr) \<Rightarrow>
       if \<not> ok (rv f) then Exit (Return (- errno f, mapFds, tr))
       else
         (case mapMatchesExpectations pf K (rv f) (mapNames ! i) (md ! i)
                 (createMaps_type pf (md ! i)) tr of
            (matches, tr) \<Rightarrow>
         if \<not> matches then Exit (Return (- ENOTUNIQ, mapFds, tr))
         else if reuse then
           (let (mapId, tr) = sys K (bpfGetFdMapId (rv f)) tr in Next (ret, mapFds @ [rv f], tr))
         else
           (let pinLoc = mapPinLoc pfx objName (md ! i) (mapNames ! i);
                (p, tr) = sys K (bpfFdPin (rv f) pinLoc) tr in
            if rv p \<noteq> 0 then Exit (Return (- errno p, mapFds, tr))
            else
              let (c, tr) = sys K (chmod pinLoc (mode (md ! i))) tr in
              if rv c \<noteq> 0 then Exit (Return (- errno c, mapFds, tr))
              else
                let (w, tr) = sys K (chown pinLoc (bpf_map_def.uid (md ! i))
                                       (bpf_map_def.gid (md ! i))) tr in
                if rv w \<noteq> 0 then Exit (Return (- errno w, mapFds, tr))
                else
                  let (mapId, tr) = sys K (bpfGetFdMapId (rv f)) tr
                  in Next (rv w, mapFds @ [rv f], tr)))))"

definition createMaps ::
  "platform \<Rightarrow> abi \<Rightarrow> kernel \<Rightarrow> string \<Rightarrow> elfFile \<Rightarrow> c_int list \<Rightarrow> string \<Rightarrow> event list
   \<Rightarrow> (c_int \<times> c_int list \<times> event list) outcome" where
  "createMaps pf ab K elfPath elf mapFds pfx tr =
     (let objName = pathToObjName elfPath in
      case readSectionByName elf ''maps'' of
        (ret, mdData) \<Rightarrow>
      if ret = - 2 then Return (0, mapFds, tr)
      else if ret \<noteq> 0 then Return (ret, mapFds, tr)
      else if length mdData mod sizeof_bpf_map_def ab \<noteq> 0 then Return (- 1, mapFds, tr)
      else let md = records_of (sizeof_bpf_map_def ab) (as_bpf_map_def ab) mdData in
      (case getSectionSymNames elf ''maps'' None of
         (ret, mapNames) \<Rightarrow>
       if ret \<noteq> 0 then Return (ret, mapFds, tr)
       else (case for_each (createMaps_body pf K objName pfx md mapNames)
                    [0..<length mapNames] (ret, mapFds, tr) of
               Next st \<Rightarrow> Return st
             | Exit r \<Rightarrow> r)))"

subsection \<open>loadCodeSections\<close>

text \<open>The pin location, with any \<open>$\<close> suffix of the section's name stripped.\<close>

definition progPinLoc :: "string \<Rightarrow> string \<Rightarrow> codeSection \<Rightarrow> string" where
  "progPinLoc pfx objName c =
     BPF_FS_PATH @ pfx @ ''prog_'' @ objName @ ''_''
       @ substr0 (name c) (find_last_of (name c) (CHR ''$''))"

text \<open>The \<open>BPF_PROG_LOAD\<close> request; \<open>prog_name\<close> is the unstripped name, cut to fit.\<close>

definition prog_load_req :: "platform \<Rightarrow> string \<Rightarrow> codeSection \<Rightarrow> syscall" where
  "prog_load_req pf license c =
     BPF_PROG_LOAD (codeSection.type c) (kernelVersion pf) license (data c)
       (word_of_nat (length (data c) div sizeof_bpf_insn)) 1 BPF_LOAD_LOG_SZ
       (expected_attach_type c) (take 15 (name c))"

text \<open>The lines logged when the verifier rejects a program.\<close>

definition verifier_log :: "string \<Rightarrow> event list" where
  "verifier_log buf =
     [ALOGW ''BPF_PROG_LOAD - BEGIN log_buf contents:'']
       @ map ALOGW (Split buf [CHR 0x0A])
       @ [ALOGW ''BPF_PROG_LOAD - END log_buf contents.'']"

text \<open>
  The body of the loop over the code sections. The state is the vector \<open>cs\<close> (whose
  \<open>prog_fd\<close> fields are set) and the history; a \<open>return\<close> carries the code.
\<close>

definition loadCodeSections_body ::
  "platform \<Rightarrow> kernel \<Rightarrow> string \<Rightarrow> string \<Rightarrow> string \<Rightarrow> nat
   \<Rightarrow> codeSection list \<times> event list
   \<Rightarrow> (codeSection list \<times> event list, c_int \<times> codeSection list \<times> event list) flow" where
  "loadCodeSections_body pf K objName license pfx i st =
     (case st of (cs, tr) \<Rightarrow>
     (case prog_def (cs ! i) of
        None \<Rightarrow> Exit (- EINVAL, cs, tr)
      | Some def \<Rightarrow>
     if kernelVersion pf < bpf_prog_def.min_kver def \<or> bpf_prog_def.max_kver def \<le> kernelVersion pf
     then Next (cs, tr)
     else
       let pinLoc = progPinLoc pfx objName (cs ! i);
           (a, tr) = sys K (access pinLoc) tr
       in
       if rv a = 0 then
         (let (f, tr) = sys K (retrieveProgram pinLoc) tr;
              cs = cs[i := (cs ! i)\<lparr>prog_fd := rv f\<rparr>]
          in if \<not> ok (rv f) then Exit (rv f, cs, tr)
             else let (progId, tr) = sys K (bpfGetFdProgId (rv f)) tr in Next (cs, tr))
       else
         (let (f, tr) = sys K (prog_load_req pf license (cs ! i)) tr;
              cs = cs[i := (cs ! i)\<lparr>prog_fd := rv f\<rparr>]
          in
          if \<not> ok (rv f) then
            (let tr = tr @ verifier_log (log_buf f)
             in if optional def
                then Next (cs, tr @ [ALOGW ''failed program is marked optional - continuing...''])
                else Exit (rv f, cs, tr @ [ALOGE ''non-optional program failed to load.'']))
          else
            (let (p, tr) = sys K (bpfFdPin (rv f) pinLoc) tr in
             if rv p \<noteq> 0 then Exit (- errno p, cs, tr)
             else
               let (c, tr) = sys K (chmod pinLoc mode_0440) tr in
               if rv c \<noteq> 0 then Exit (- errno c, cs, tr)
               else
                 let (w, tr) = sys K (chown pinLoc (bpf_prog_def.uid def)
                                        (bpf_prog_def.gid def)) tr in
                 if rv w \<noteq> 0 then Exit (- errno w, cs, tr)
                 else
                   let (progId, tr) = sys K (bpfGetFdProgId (rv f)) tr in Next (cs, tr)))))"

definition loadCodeSections ::
  "platform \<Rightarrow> kernel \<Rightarrow> string \<Rightarrow> codeSection list \<Rightarrow> string \<Rightarrow> string \<Rightarrow> event list
   \<Rightarrow> c_int \<times> codeSection list \<times> event list" where
  "loadCodeSections pf K elfPath cs license pfx tr =
     (if kernelVersion pf = 0 then (- EINVAL, cs, tr @ [ALOGE ''unable to get kernel version''])
      else
        let objName = pathToObjName elfPath in
        case for_each (loadCodeSections_body pf K objName license pfx) [0..<length cs] (cs, tr) of
          Next (cs, tr) \<Rightarrow> (0, cs, tr)
        | Exit r \<Rightarrow> r)"

subsection \<open>loadProg\<close>

record Location =
  prefix :: string
  allowedProgTypes :: "bpf_prog_type list option"

text \<open>The C string held in a byte vector: the characters before the first NUL.\<close>

definition c_str :: "byte list \<Rightarrow> string" where
  "c_str bs = map (\<lambda>b. char_of (unat b)) (takeWhile (\<lambda>b. b \<noteq> 0) bs)"

text \<open>
  The result is the return code, \<open>*isCritical\<close> and the history (the caller passes a
  non-null \<open>isCritical\<close>). The read of \<open>critical\<close> may fail and the function goes on:
  \<open>license\<close> is read from the stream as that read left it. \<open>createMaps\<close> and
  \<open>applyMapRelo\<close> read from the stream \<open>readCodeSections\<close> leaves on returning 0;
  \<open>createMaps\<close> returns 0 only when \<open>maps\<close> is absent or each of its reads succeeded.
\<close>

definition loadProg ::
  "platform \<Rightarrow> abi \<Rightarrow> kernel \<Rightarrow> string \<Rightarrow> elfFile \<Rightarrow> Location \<Rightarrow> event list
   \<Rightarrow> (c_int \<times> bool \<times> event list) outcome" where
  "loadProg pf ab K elfPath elf location tr =
     (if \<not> is_open elf then Return (- 1, False, tr)
      else
        let isCritical = (fst (readSectionByName elf ''critical'') = 0);
            elf = stream_after (fst (readSectionByName elf ''critical'')) elf in
        case readSectionByName elf ''license'' of
          (ret, license) \<Rightarrow>
        if ret \<noteq> 0 then Return (ret, isCritical, tr)
        else
          (case readCodeSections pf ab elf (allowedProgTypes location) of
             Abort \<Rightarrow> Abort
           | OutOfBounds v x n \<Rightarrow> OutOfBounds v x n
           | Return (ret, cs) \<Rightarrow>
          if ret \<noteq> 0 then Return (ret, isCritical, tr)
          else
            let elf = progs_names_stream elf in
            (case createMaps pf ab K elfPath elf [] (prefix location) tr of
               Abort \<Rightarrow> Abort
             | OutOfBounds v x n \<Rightarrow> OutOfBounds v x n
             | Return (ret, mapFds, tr) \<Rightarrow>
            if ret \<noteq> 0 then Return (ret, isCritical, tr)
            else
              (case applyMapRelo elf mapFds cs of
                 Abort \<Rightarrow> Abort
               | OutOfBounds v x n \<Rightarrow> OutOfBounds v x n
               | Return cs \<Rightarrow>
                   (case loadCodeSections pf K elfPath cs (c_str license) (prefix location) tr of
                      (ret, cs, tr) \<Rightarrow> Return (ret, isCritical, tr))))))"

subsection \<open>Notions used to state the properties\<close>

text \<open>
  The five attributes \<open>mapMatchesExpectations\<close> asks the kernel for, as events and as the
  values the kernel returns when they are asked in that order after the history \<open>tr\<close>;
  and the five values they are compared with.
\<close>

definition map_attr_queries :: "c_int \<Rightarrow> event list" where
  "map_attr_queries fd =
     [Syscall (bpfGetFdMapType fd), Syscall (bpfGetFdKeySize fd), Syscall (bpfGetFdValueSize fd),
      Syscall (bpfGetFdMaxEntries fd), Syscall (bpfGetFdMapFlags fd)]"

definition live_map_attrs ::
  "kernel \<Rightarrow> c_int \<Rightarrow> event list \<Rightarrow> 32 word \<times> 32 word \<times> 32 word \<times> 32 word \<times> 32 word" where
  "live_map_attrs K fd tr =
     (rv (K (tr @ take 0 (map_attr_queries fd)) (bpfGetFdMapType fd)),
      rv (K (tr @ take 1 (map_attr_queries fd)) (bpfGetFdKeySize fd)),
      rv (K (tr @ take 2 (map_attr_queries fd)) (bpfGetFdValueSize fd)),
      rv (K (tr @ take 3 (map_attr_queries fd)) (bpfGetFdMaxEntries fd)),
      rv (K (tr @ take 4 (map_attr_queries fd)) (bpfGetFdMapFlags fd)))"

definition desired_map_attrs ::
  "platform \<Rightarrow> bpf_map_def \<Rightarrow> bpf_map_type \<Rightarrow> 32 word \<times> 32 word \<times> 32 word \<times> 32 word \<times> 32 word" where
  "desired_map_attrs pf m ty =
     (ty, key_size m, value_size m, desired_max_entries pf m ty, desired_map_flags m ty)"

text \<open>The range \<open>[min_kver, max_kver)\<close> excludes the running kernel version.\<close>

definition excluded_map :: "platform \<Rightarrow> bpf_map_def \<Rightarrow> bool" where
  "excluded_map pf m = (kernelVersion pf < bpf_map_def.min_kver m \<or> bpf_map_def.max_kver m \<le> kernelVersion pf)"

definition excluded_prog :: "platform \<Rightarrow> bpf_prog_def \<Rightarrow> bool" where
  "excluded_prog pf d =
     (kernelVersion pf < bpf_prog_def.min_kver d \<or> bpf_prog_def.max_kver d \<le> kernelVersion pf)"

section \<open>Example platform, objects and kernels\<close>

text \<open>A platform used in the examples: 4 KiB pages, kernel 5.10.0, no fuse-bpf.\<close>

definition example_platform :: platform where
  "example_platform =
     \<lparr>page_size = 4096, kernelVersion = 0x50a00,
      isAtLeastKernelVersion =
        (\<lambda>major minor sub. major < 5 \<or> (major = 5 \<and> (minor < 10 \<or> (minor = 10 \<and> sub = 0)))),
      getFuseProgType = BPF_PROG_TYPE_UNSPEC\<rparr>"

text \<open>
  An object all of whose reads succeed, given by its string table (offset and name), its
  section headers, the sections' contents and its symbol table (listed in ascending
  \<open>st_value\<close> order, so that the sorted and the unsorted reading agree).
\<close>

definition readable_elf ::
  "(32 word \<times> string) list \<Rightarrow> Elf64_Shdr list \<Rightarrow> byte list list \<Rightarrow> Elf64_Sym list \<Rightarrow> elfFile"
where
  "readable_elf strtab shTable contents symtab =
     \<lparr>is_open = True,
      readSectionHeadersAll = (0, shTable),
      readSectionByIdx = (\<lambda>i. if i < length contents then (0, contents ! i) else (- 1, [])),
      readSectionByName = (\<lambda>n.
         case first_index (\<lambda>sh. map_of strtab (sh_name sh) = Some n) shTable of
           Some i \<Rightarrow> if i < length contents then (0, contents ! i) else (- 1, [])
         | None \<Rightarrow> (- 2, [])),
      readSymTab = (\<lambda>sort. (0, symtab)),
      getSymName = (\<lambda>off. case map_of strtab off of Some s \<Rightarrow> (0, s) | None \<Rightarrow> (- 1, []))\<rparr>"

definition shdr :: "32 word \<Rightarrow> Elf64_Shdr" where
  "shdr n = \<lparr>sh_name = n, sh_type = 1, sh_flags = 0, sh_addr = 0, sh_offset = 0, sh_size = 0,
     sh_link = 0, sh_info = 0, sh_addralign = 0, sh_entsize = 0\<rparr>"

definition symbol :: "32 word \<Rightarrow> byte \<Rightarrow> 16 word \<Rightarrow> 64 word \<Rightarrow> Elf64_Sym" where
  "symbol n info shndx v = \<lparr>st_name = n, st_info = info, st_other = 0, st_shndx = shndx,
     st_value = v, st_size = 0\<rparr>"

text \<open>
  A layout for the examples: a program definition is 20 bytes (uid, gid, min\_kver,
  max\_kver, then the optional flag), a map definition 48 bytes (eleven 32-bit fields in
  the order of the record, then the shared flag).
\<close>

definition example_abi :: abi where
  "example_abi =
     \<lparr>sizeof_bpf_map_def = 48,
      as_bpf_map_def = (\<lambda>bs.
        \<lparr>bpf_map_def.type = le_word (take 4 bs), key_size = le_word (take 4 (drop 4 bs)),
         value_size = le_word (take 4 (drop 8 bs)), max_entries = le_word (take 4 (drop 12 bs)),
         map_flags = le_word (take 4 (drop 16 bs)), zero = le_word (take 4 (drop 20 bs)),
         uid = le_word (take 4 (drop 24 bs)), gid = le_word (take 4 (drop 28 bs)),
         mode = le_word (take 4 (drop 32 bs)), min_kver = le_word (take 4 (drop 36 bs)),
         max_kver = le_word (take 4 (drop 40 bs)), shared = (bs ! 44 \<noteq> 0)\<rparr>),
      sizeof_bpf_prog_def = 20,
      as_bpf_prog_def = (\<lambda>bs.
        \<lparr>bpf_prog_def.uid = le_word (take 4 bs), gid = le_word (take 4 (drop 4 bs)),
         min_kver = le_word (take 4 (drop 8 bs)), max_kver = le_word (take 4 (drop 12 bs)),
         optional = (bs ! 16 \<noteq> 0)\<rparr>)\<rparr>"

text \<open>
  One relocation entry (offset 0, symbol 1) and a 16-byte buffer to patch: the two
  instruction slots of one 64-bit immediate load. And a relocation entry for symbol 1
  whose offset, 16, is that of the slot after the last of that buffer.
\<close>

definition example_rel_data :: "byte list" where
  "example_rel_data = [0, 0, 0, 0, 0, 0, 0, 0, 1, 0, 0, 0, 1, 0, 0, 0]"

definition example_insns :: "byte list" where
  "example_insns = [0x18, 0x01, 0, 0, 0, 0, 0, 0, 0, 0, 0, 0, 0, 0, 0, 0]"

definition example_rel_data_past :: "byte list" where
  "example_rel_data_past = [16, 0, 0, 0, 0, 0, 0, 0, 1, 0, 0, 0, 1, 0, 0, 0]"

text \<open>A program definition for every kernel version, not optional, and its bytes.\<close>

definition example_prog_def_bytes :: "byte list" where
  "example_prog_def_bytes =
     [0, 0, 0, 0, 0, 0, 0, 0, 0, 0, 0, 0, 0xff, 0xff, 0xff, 0xff, 0, 0, 0, 0]"

text \<open>A hash map definition (4-byte keys, 8-byte values, 64 entries, mode 0660) as bytes.\<close>

definition example_map_def_bytes :: "byte list" where
  "example_map_def_bytes =
     [1, 0, 0, 0, 4, 0, 0, 0, 8, 0, 0, 0, 64, 0, 0, 0, 0, 0, 0, 0, 0, 0, 0, 0,
      0, 0, 0, 0, 0, 0, 0, 0, 0xb0, 1, 0, 0, 0, 0, 0, 0, 0xff, 0xff, 0xff, 0xff, 0, 0, 0, 0]"

text \<open>
  An object with a map \<open>m\<close>, a program definition \<open>f_def\<close> and the program \<open>f\<close> in
  section \<open>tracepoint/f\<close>, whose relocation section follows it.
\<close>

definition example_elf :: elfFile where
  "example_elf = readable_elf
     [(0, []), (1, ''maps''), (2, ''progs''), (3, ''tracepoint/f''), (4, ''.reltracepoint/f''),
      (5, ''m''), (6, ''f_def''), (7, ''f''), (8, ''license'')]
     [shdr 0, shdr 1, shdr 2, shdr 3, shdr 4, shdr 8]
     [[], example_map_def_bytes, example_prog_def_bytes, example_insns, example_rel_data,
      [0x47, 0x50, 0x4c, 0]]
     [symbol 0 0 0 0, symbol 5 1 1 1, symbol 6 1 2 2, symbol 7 2 3 3]"

text \<open>An object whose last section header is the code section \<open>kprobe/f\<close>.\<close>

definition example_elf_code_last :: elfFile where
  "example_elf_code_last = readable_elf
     [(0, []), (2, ''progs''), (3, ''kprobe/f''), (6, ''f_def''), (7, ''f'')]
     [shdr 0, shdr 2, shdr 3]
     [[], example_prog_def_bytes, [0x95, 0, 0, 0, 0, 0, 0, 0]]
     [symbol 0 0 0 0, symbol 6 1 1 1, symbol 7 2 2 2]"


definition example_prog_def :: bpf_prog_def where
  "example_prog_def = \<lparr>bpf_prog_def.uid = 0, gid = 0, min_kver = 0, max_kver = 0xffffffff,
     optional = False\<rparr>"

text \<open>The code section read from \<open>tracepoint/a\<close> of that object.\<close>

definition example_cs_a :: codeSection where
  "example_cs_a = \<lparr>codeSection.type = BPF_PROG_TYPE_TRACEPOINT,
     expected_attach_type = BPF_ATTACH_TYPE_UNSPEC, name = ''tracepoint_a'',
     data = [0x95, 0, 0, 0, 0, 0, 0, 0], rel_data = [],
     prog_def = Some example_prog_def, prog_fd = - 1\<rparr>"

text \<open>
  Three kernels. \<open>rejecting_kernel\<close> has no pins and refuses every request, leaving two
  lines in the verifier log. \<open>stale_pin_kernel\<close> has every path pinned and reports a hash
  map with 4-byte keys and values and 64 entries. \<open>fresh_kernel\<close> has no pins, accepts
  every request and reports for a map what the last \<open>BPF_MAP_CREATE\<close> asked for, with
  the read-only-from-program flag added for a device map.
\<close>

definition no_reply :: reply where
  "no_reply = \<lparr>rv = - 1, errno = 1, log_buf = []\<rparr>"

definition rejecting_kernel :: kernel where
  "rejecting_kernel tr c =
     (case c of
        access p \<Rightarrow> no_reply\<lparr>errno := 2\<rparr>
      | BPF_PROG_LOAD t kv lic insns cnt lvl sz eat nm \<Rightarrow>
          no_reply\<lparr>errno := 13, log_buf := ''R0 !read_ok'' @ [CHR 0x0A] @ ''processed 1 insns''\<rparr>
      | _ \<Rightarrow> no_reply)"

definition stale_pin_kernel :: kernel where
  "stale_pin_kernel tr c =
     (case c of
        access p \<Rightarrow> no_reply\<lparr>rv := 0, errno := 0\<rparr>
      | mapRetrieveRO p \<Rightarrow> no_reply\<lparr>rv := 5, errno := 0\<rparr>
      | bpfGetFdMapType fd \<Rightarrow> no_reply\<lparr>rv := BPF_MAP_TYPE_HASH\<rparr>
      | bpfGetFdKeySize fd \<Rightarrow> no_reply\<lparr>rv := 4\<rparr>
      | bpfGetFdValueSize fd \<Rightarrow> no_reply\<lparr>rv := 4\<rparr>
      | bpfGetFdMaxEntries fd \<Rightarrow> no_reply\<lparr>rv := 64\<rparr>
      | bpfGetFdMapFlags fd \<Rightarrow> no_reply\<lparr>rv := 0\<rparr>
      | _ \<Rightarrow> no_reply)"

fun last_map_create :: "event list \<Rightarrow> syscall option" where
  "last_map_create [] = None"
| "last_map_create (e # es) =
     (case last_map_create es of
        Some c \<Rightarrow> Some c
      | None \<Rightarrow>
          (case e of
             Syscall (BPF_MAP_CREATE t k v m f n) \<Rightarrow> Some (BPF_MAP_CREATE t k v m f n)
           | _ \<Rightarrow> None))"

definition created_attr :: "event list \<Rightarrow> nat \<Rightarrow> 32 word" where
  "created_attr tr a =
     (case last_map_create tr of
        Some (BPF_MAP_CREATE t k v m f n) \<Rightarrow>
          [t, k, v, m,
           if t = BPF_MAP_TYPE_DEVMAP \<or> t = BPF_MAP_TYPE_DEVMAP_HASH then f OR BPF_F_RDONLY_PROG
           else f] ! a
      | _ \<Rightarrow> - 1)"

definition fresh_kernel :: kernel where
  "fresh_kernel tr c =
     (case c of
        access p \<Rightarrow> no_reply\<lparr>errno := 2\<rparr>
      | BPF_MAP_CREATE t k v m f n \<Rightarrow> no_reply\<lparr>rv := 5, errno := 0\<rparr>
      | BPF_PROG_LOAD t kv lic insns cnt lvl sz eat nm \<Rightarrow> no_reply\<lparr>rv := 6, errno := 0\<rparr>
      | bpfGetFdMapType fd \<Rightarrow> no_reply\<lparr>rv := created_attr tr 0\<rparr>
      | bpfGetFdKeySize fd \<Rightarrow> no_reply\<lparr>rv := created_attr tr 1\<rparr>
      | bpfGetFdValueSize fd \<Rightarrow> no_reply\<lparr>rv := created_attr tr 2\<rparr>
      | bpfGetFdMaxEntries fd \<Rightarrow> no_reply\<lparr>rv := created_attr tr 3\<rparr>
      | bpfGetFdMapFlags fd \<Rightarrow> no_reply\<lparr>rv := created_attr tr 4\<rparr>
      | bpfGetFdMapId fd \<Rightarrow> no_reply\<lparr>rv := 1\<rparr>
      | bpfGetFdProgId fd \<Rightarrow> no_reply\<lparr>rv := 2\<rparr>
      | bpfFdPin fd p \<Rightarrow> no_reply\<lparr>rv := 0, errno := 0\<rparr>
      | chmod p m \<Rightarrow> no_reply\<lparr>rv := 0, errno := 0\<rparr>
      | chown p u g \<Rightarrow> no_reply\<lparr>rv := 0, errno := 0\<rparr>
      | _ \<Rightarrow> no_reply)"

text \<open>Map definitions and code sections for the examples.\<close>

definition example_map_def :: bpf_map_def where
  "example_map_def = \<lparr>bpf_map_def.type = BPF_MAP_TYPE_HASH, key_size = 4, value_size = 8,
     max_entries = 64, map_flags = 0, zero = 0, uid = 0, gid = 0, mode = 0x1b0,
     min_kver = 0, max_kver = 0xffffffff, shared = False\<rparr>"

definition example_devmap_def :: bpf_map_def where
  "example_devmap_def = example_map_def\<lparr>bpf_map_def.type := BPF_MAP_TYPE_DEVMAP, value_size := 4\<rparr>"

definition example_future_map_def :: bpf_map_def where
  "example_future_map_def = example_map_def\<lparr>bpf_map_def.min_kver := 0xffff0000\<rparr>"




definition example_cs_optional :: codeSection where
  "example_cs_optional = example_cs_a\<lparr>prog_def := Some (example_prog_def\<lparr>optional := True\<rparr>)\<rparr>"


definition example_cs_no_def :: codeSection where
  "example_cs_no_def = example_cs_a\<lparr>name := ''tracepoint_f'', prog_def := None\<rparr>"

definition example_create_trace :: "event list" where
  "example_create_trace =
     [Syscall (access ''/sys/fs/bpf/test_map_foo_m''),
      Syscall (BPF_MAP_CREATE BPF_MAP_TYPE_DEVMAP 4 4 64 0 ''m'')] @ map_attr_queries 5 @
     [Syscall (bpfFdPin 5 ''/sys/fs/bpf/test_map_foo_m''),
      Syscall (chmod ''/sys/fs/bpf/test_map_foo_m'' 0x1b0),
      Syscall (chown ''/sys/fs/bpf/test_map_foo_m'' 0 0),
      Syscall (bpfGetFdMapId 5)]"

text \<open>An object with an empty \<open>progs\<close> section and one program.\<close>

definition example_elf_empty_progs :: elfFile where
  "example_elf_empty_progs = readable_elf
     [(0, []), (2, ''progs''), (3, ''tracepoint/f''), (7, ''f''), (8, ''license'')]
     [shdr 0, shdr 2, shdr 3, shdr 8]
     [[], [], [0x95, 0, 0, 0, 0, 0, 0, 0], [0x47, 0x50, 0x4c, 0]]
     [symbol 0 0 0 0, symbol 7 2 2 1]"

definition example_location :: Location where
  "example_location = \<lparr>prefix = ''test_'', allowedProgTypes = None\<rparr>"

definition example_reject_trace :: "event list" where
  "example_reject_trace =
     [Syscall (access ''/sys/fs/bpf/test_prog_foo_tracepoint_a''),
      Syscall (prog_load_req example_platform ''GPL'' example_cs_optional),
      ALOGW ''BPF_PROG_LOAD - BEGIN log_buf contents:'',
      ALOGW ''R0 !read_ok'',
      ALOGW ''processed 1 insns'',
      ALOGW ''BPF_PROG_LOAD - END log_buf contents.'',
      ALOGW ''failed program is marked optional - continuing...'']"

text \<open>The code section read from that object, and the history of its complete load.\<close>

definition example_cs_f :: codeSection where
  "example_cs_f = \<lparr>codeSection.type = BPF_PROG_TYPE_TRACEPOINT,
     expected_attach_type = BPF_ATTACH_TYPE_UNSPEC, name = ''tracepoint_f'',
     data = example_insns, rel_data = example_rel_data,
     prog_def = Some example_prog_def, prog_fd = - 1\<rparr>"

definition example_load_trace :: "event list" where
  "example_load_trace =
     [Syscall (access ''/sys/fs/bpf/test_map_foo_m''),
      Syscall (BPF_MAP_CREATE BPF_MAP_TYPE_HASH 4 8 64 0 ''m'')] @ map_attr_queries 5 @
     [Syscall (bpfFdPin 5 ''/sys/fs/bpf/test_map_foo_m''),
      Syscall (chmod ''/sys/fs/bpf/test_map_foo_m'' 0x1b0),
      Syscall (chown ''/sys/fs/bpf/test_map_foo_m'' 0 0),
      Syscall (bpfGetFdMapId 5),
      Syscall (access ''/sys/fs/bpf/test_prog_foo_tracepoint_f''),
      Syscall (BPF_PROG_LOAD BPF_PROG_TYPE_TRACEPOINT 0x50a00 ''GPL''
                 [0x18, 0x11, 0, 0, 5, 0, 0, 0, 0, 0, 0, 0, 0, 0, 0, 0] 2 1 BPF_LOAD_LOG_SZ
                 BPF_ATTACH_TYPE_UNSPEC ''tracepoint_f''),
      Syscall (bpfFdPin 6 ''/sys/fs/bpf/test_prog_foo_tracepoint_f''),
      Syscall (chmod ''/sys/fs/bpf/test_prog_foo_tracepoint_f'' mode_0440),
      Syscall (chown ''/sys/fs/bpf/test_prog_foo_tracepoint_f'' 0 0),
      Syscall (bpfGetFdProgId 6)]"

definition example_map_trace :: "event list" where
  "example_map_trace =
     [Syscall (access ''/sys/fs/bpf/test_map_foo_m''),
      Syscall (BPF_MAP_CREATE BPF_MAP_TYPE_HASH 4 8 64 0 ''m'')] @ map_attr_queries 5 @
     [Syscall (bpfFdPin 5 ''/sys/fs/bpf/test_map_foo_m''),
      Syscall (chmod ''/sys/fs/bpf/test_map_foo_m'' 0x1b0),
      Syscall (chown ''/sys/fs/bpf/test_map_foo_m'' 0 0),
      Syscall (bpfGetFdMapId 5)]"

definition example_cs_loaded :: codeSection where
  "example_cs_loaded = example_cs_f\<lparr>data := [0x18, 0x11, 0, 0, 5, 0, 0, 0, 0, 0, 0, 0, 0, 0, 0, 0],
     prog_fd := 6\<rparr>"

section \<open>Properties\<close>

subsection \<open>Object names\<close>

lemma Split_nonempty: "Split s ds \<noteq> []"
  by (induction s) (auto split: list.splits)

lemma find_last_of_None: "find_last_of s c = None \<longleftrightarrow> c \<notin> set s"
  by (induction s) (auto split: option.splits)

lemma find_last_of_Some:
  "find_last_of s c = Some n \<Longrightarrow> \<exists>t. s = take n s @ c # t \<and> c \<notin> set t"
proof (induction s arbitrary: n)
  case Nil
  then show ?case by simp
next
  case (Cons x xs)
  show ?case
  proof (cases "find_last_of xs c")
    case None
    with Cons.prems have "x = c" "n = 0" by (auto split: if_splits)
    moreover from None have "c \<notin> set xs" by (simp add: find_last_of_None)
    ultimately show ?thesis by simp
  next
    case (Some m)
    with Cons.prems have n: "n = Suc m" by simp
    from Cons.IH[OF Some] obtain t where "xs = take m xs @ c # t" "c \<notin> set t" by blast
    then show ?thesis using n by auto
  qed
qed

lemma substr0_find_last_of:
  "if c \<in> set s then \<exists>t. s = substr0 s (find_last_of s c) @ c # t \<and> c \<notin> set t
   else substr0 s (find_last_of s c) = s"
proof (cases "find_last_of s c")
  case None
  moreover from None have "c \<notin> set s" by (simp add: find_last_of_None)
  ultimately show ?thesis by (simp add: substr0_def)
next
  case (Some n)
  then have "c \<in> set s" using find_last_of_None[of s c] by auto
  with Some find_last_of_Some[OF Some] show ?thesis by (simp add: substr0_def)
qed

lemma last_Split:
  "\<exists>dir. s = dir @ last (Split s ds) \<and> set (last (Split s ds)) \<inter> set ds = {} \<and>
     (dir \<noteq> [] \<longrightarrow> last dir \<in> set ds) \<and> (dir = [] \<longleftrightarrow> length (Split s ds) = 1)"
proof (induction s)
  case Nil
  then show ?case by simp
next
  case (Cons c s)
  then obtain dir where d: "s = dir @ last (Split s ds)"
    "set (last (Split s ds)) \<inter> set ds = {}"
    "dir \<noteq> [] \<longrightarrow> last dir \<in> set ds" "dir = [] \<longleftrightarrow> length (Split s ds) = 1"
    by blast
  obtain w ws where sp: "Split s ds = w # ws"
    using Split_nonempty by (cases "Split s ds") auto
  show ?case
  proof (cases "c \<in> set ds")
    case True
    then have "last (Split (c # s) ds) = last (Split s ds)" "length (Split (c # s) ds) \<noteq> 1"
      by (simp_all add: sp)
    with d True show ?thesis
      by (intro exI[of _ "c # dir"]) auto
  next
    case False
    show ?thesis
    proof (cases ws)
      case Nil
      with d sp have "dir = []" "s = w" by auto
      with sp Nil False d show ?thesis by (intro exI[of _ "[]"]) auto
    next
      case (Cons v vs)
      with sp False have "last (Split (c # s) ds) = last (Split s ds)"
        "length (Split (c # s) ds) \<noteq> 1"
        by simp_all
      moreover from Cons sp d have "dir \<noteq> []" by auto
      ultimately show ?thesis using d by (intro exI[of _ "c # dir"]) auto
    qed
  qed
qed

text \<open>
  Claim C8, as the code has it. For every path, \<open>pathToObjName\<close> takes the final path
  component \<open>f\<close> (what follows the last slash), cuts it at its LAST period (whatever
  follows that period, not only a trailing \<open>.o\<close>; nothing is cut when there is no
  period), and cuts the result at its LAST \<open>@\<close> (nothing is cut when there is none).
  In particular \<open>foo@1.o\<close> and \<open>foo.o\<close> both give \<open>foo\<close>.
\<close>

theorem pathToObjName_cuts_last_period_then_last_at:
  "(\<exists>dir f n.
      path = dir @ f \<and> CHR ''/'' \<notin> set f \<and> (dir \<noteq> [] \<longrightarrow> last dir = CHR ''/'') \<and>
      (if CHR ''.'' \<in> set f then \<exists>ext. f = n @ CHR ''.'' # ext \<and> CHR ''.'' \<notin> set ext
       else n = f) \<and>
      (if CHR ''@'' \<in> set n
       then \<exists>tag. n = pathToObjName path @ CHR ''@'' # tag \<and> CHR ''@'' \<notin> set tag
       else pathToObjName path = n)) \<and>
   pathToObjName ''foo@1.o'' = ''foo'' \<and> pathToObjName ''foo.o'' = ''foo''"
proof -
  define f where "f = last (Split path ''/'')"
  define n where "n = substr0 f (find_last_of f (CHR ''.''))"
  have r: "pathToObjName path = substr0 n (find_last_of n (CHR ''@''))"
    by (simp add: pathToObjName_def f_def n_def Let_def)
  from last_Split[of path "''/''"] obtain dir where
    d: "path = dir @ f" "CHR ''/'' \<notin> set f" "dir \<noteq> [] \<longrightarrow> last dir = CHR ''/''"
    by (auto simp: f_def)
  have p: "if CHR ''.'' \<in> set f then \<exists>ext. f = n @ CHR ''.'' # ext \<and> CHR ''.'' \<notin> set ext
           else n = f"
    using substr0_find_last_of[of "CHR ''.''" f] by (simp add: n_def)
  have a: "if CHR ''@'' \<in> set n
           then \<exists>tag. n = pathToObjName path @ CHR ''@'' # tag \<and> CHR ''@'' \<notin> set tag
           else pathToObjName path = n"
    using substr0_find_last_of[of "CHR ''@''" n] by (simp add: r)
  have e: "pathToObjName ''foo@1.o'' = ''foo''" "pathToObjName ''foo.o'' = ''foo''"
    by (simp_all add: pathToObjName_def substr0_def)
  from d p a e show ?thesis by blast
qed

theorem pathToObjName_cuts_last_period_then_last_at_witness:
  "''bpf/foo@1.o'' = ''bpf/'' @ ''foo@1.o'' \<and> ''bpf/'' \<noteq> [] \<and> last ''bpf/'' = CHR ''/'' \<and>
   CHR ''.'' \<in> set ''foo@1.o'' \<and> CHR ''@'' \<in> set ''foo@1'' \<and>
   pathToObjName ''bpf/foo@1.o'' = ''foo''"
  using pathToObjName_cuts_last_period_then_last_at[of "''bpf/foo@1.o''"]
  by (simp add: pathToObjName_def substr0_def)

text \<open>
  Claim C8 as stated fails: for a final component with a period that does not end in
  \<open>.o\<close> there is no trailing \<open>.o\<close> to remove, yet the code cuts at the period.
\<close>

theorem pathToObjName_not_only_dot_o_counterexample:
  "pathToObjName ''bpf/foo.txt'' = ''foo'' \<and> spec_ObjName ''bpf/foo.txt'' = ''foo.txt''"
  by (simp add: pathToObjName_def substr0_def spec_ObjName_def strip_from_at_def
      remove_trailing_dot_o_def final_component_def)

subsection \<open>The section-name table\<close>

lemmas table_defs = sectionNameTypes_def BPF_PROG_TYPE_KPROBE_def BPF_PROG_TYPE_PERF_EVENT_def
  BPF_PROG_TYPE_SOCKET_FILTER_def BPF_PROG_TYPE_TRACEPOINT_def BPF_PROG_TYPE_UNSPEC_def

lemma getSectionType_prefixed:
  "getSectionType pf (''kprobe/'' @ t) = BPF_PROG_TYPE_KPROBE"
  "getSectionType pf (''kretprobe/'' @ t) = BPF_PROG_TYPE_KPROBE"
  "getSectionType pf (''perf_event/'' @ t) = BPF_PROG_TYPE_PERF_EVENT"
  "getSectionType pf (''skfilter/'' @ t) = BPF_PROG_TYPE_SOCKET_FILTER"
  "getSectionType pf (''tracepoint/'' @ t) = BPF_PROG_TYPE_TRACEPOINT"
  "getSectionType pf (''uprobe/'' @ t) = BPF_PROG_TYPE_KPROBE"
  "getSectionType pf (''uretprobe/'' @ t) = BPF_PROG_TYPE_KPROBE"
  by (simp_all add: getSectionType_def sectionNameTypes_def StartsWith_def)

lemma getSectionName_values:
  "getSectionName BPF_PROG_TYPE_KPROBE = ''kprobe/''"
  "getSectionName BPF_PROG_TYPE_PERF_EVENT = ''perf_event/''"
  "getSectionName BPF_PROG_TYPE_SOCKET_FILTER = ''skfilter/''"
  "getSectionName BPF_PROG_TYPE_TRACEPOINT = ''tracepoint/''"
  by (simp_all add: getSectionName_def table_defs)

lemma in_table:
  "e \<in> set sectionNameTypes \<longleftrightarrow>
     e = \<lparr>snt_name = ''kprobe/'', snt_type = BPF_PROG_TYPE_KPROBE,
      snt_expected_attach_type = BPF_ATTACH_TYPE_UNSPEC\<rparr> \<or>
     e = \<lparr>snt_name = ''kretprobe/'', snt_type = BPF_PROG_TYPE_KPROBE,
      snt_expected_attach_type = BPF_ATTACH_TYPE_UNSPEC\<rparr> \<or>
     e = \<lparr>snt_name = ''perf_event/'', snt_type = BPF_PROG_TYPE_PERF_EVENT,
      snt_expected_attach_type = BPF_ATTACH_TYPE_UNSPEC\<rparr> \<or>
     e = \<lparr>snt_name = ''skfilter/'', snt_type = BPF_PROG_TYPE_SOCKET_FILTER,
      snt_expected_attach_type = BPF_ATTACH_TYPE_UNSPEC\<rparr> \<or>
     e = \<lparr>snt_name = ''tracepoint/'', snt_type = BPF_PROG_TYPE_TRACEPOINT,
      snt_expected_attach_type = BPF_ATTACH_TYPE_UNSPEC\<rparr> \<or>
     e = \<lparr>snt_name = ''uprobe/'', snt_type = BPF_PROG_TYPE_KPROBE,
      snt_expected_attach_type = BPF_ATTACH_TYPE_UNSPEC\<rparr> \<or>
     e = \<lparr>snt_name = ''uretprobe/'', snt_type = BPF_PROG_TYPE_KPROBE,
      snt_expected_attach_type = BPF_ATTACH_TYPE_UNSPEC\<rparr>"
  unfolding sectionNameTypes_def by (simp only: list.set insert_iff empty_iff simp_thms)

lemma getSectionType_of_prefixed:
  assumes "e \<in> set sectionNameTypes" "StartsWith nm (snt_name e)"
  shows "getSectionType pf nm = snt_type e"
proof -
  from assms(2) obtain t where n: "nm = snt_name e @ t"
    unfolding StartsWith_def by (metis append_take_drop_id)
  from assms(1) show ?thesis unfolding n in_table
    by (elim disjE) (simp_all only: sectionType.simps getSectionType_prefixed)
qed

lemma getSectionName_of_table:
  assumes "e \<in> set sectionNameTypes"
  shows "getSectionName (snt_type e) =
     (if snt_name e \<in> {''kretprobe/'', ''uprobe/'', ''uretprobe/''} then ''kprobe/''
      else snt_name e)"
  using assms unfolding in_table
  by (elim disjE) (simp_all add: getSectionName_values)

text \<open>
  Claim C4, as the code has it. The seven prefixes of the table are distinct and each
  names one program type, but four of them (\<open>kprobe/\<close>, \<open>kretprobe/\<close>, \<open>uprobe/\<close>,
  \<open>uretprobe/\<close>) name the same type, so the table is not a bijection. For every entry:
  a section name that starts with its prefix gets its type; going from the type to a
  name and back gives the type again; going from the prefix to the type and back gives
  the prefix itself, except that \<open>kretprobe/\<close>, \<open>uprobe/\<close> and \<open>uretprobe/\<close> come back as
  \<open>kprobe/\<close>, the first prefix of their type.
\<close>

theorem sectionNameTypes_round_trip:
  "distinct (map snt_name sectionNameTypes) \<and>
   (\<forall>e \<in> set sectionNameTypes.
      (\<forall>nm. StartsWith nm (snt_name e) \<longrightarrow> getSectionType pf nm = snt_type e) \<and>
      getSectionType pf (getSectionName (snt_type e)) = snt_type e \<and>
      getSectionName (getSectionType pf (snt_name e)) =
        (if snt_name e \<in> {''kretprobe/'', ''uprobe/'', ''uretprobe/''} then ''kprobe/''
         else snt_name e))"
proof (intro conjI ballI allI impI)
  show "distinct (map snt_name sectionNameTypes)" by (simp add: sectionNameTypes_def)
next
  fix e nm assume "e \<in> set sectionNameTypes" "StartsWith nm (snt_name e)"
  then show "getSectionType pf nm = snt_type e" by (rule getSectionType_of_prefixed)
next
  fix e assume e: "e \<in> set sectionNameTypes"
  have k: "getSectionType pf ''kprobe/'' = BPF_PROG_TYPE_KPROBE"
    using getSectionType_prefixed(1)[of pf "[]"] by simp
  have t: "getSectionType pf (snt_name e) = snt_type e"
    using e by (rule getSectionType_of_prefixed) (simp add: StartsWith_def)
  have "snt_name e \<in> {''kretprobe/'', ''uprobe/'', ''uretprobe/''} \<Longrightarrow>
        snt_type e = BPF_PROG_TYPE_KPROBE"
    using e unfolding in_table by (elim disjE) simp_all
  then show "getSectionType pf (getSectionName (snt_type e)) = snt_type e"
    using t k by (simp add: getSectionName_of_table[OF e])
  show "getSectionName (getSectionType pf (snt_name e)) =
        (if snt_name e \<in> {''kretprobe/'', ''uprobe/'', ''uretprobe/''} then ''kprobe/''
         else snt_name e)"
    unfolding t using e by (rule getSectionName_of_table)
qed

theorem sectionNameTypes_round_trip_witness:
  "sectionNameTypes ! 4 \<in> set sectionNameTypes \<and>
   StartsWith ''tracepoint/sched_switch'' (snt_name (sectionNameTypes ! 4)) \<and>
   getSectionType example_platform ''tracepoint/sched_switch'' = BPF_PROG_TYPE_TRACEPOINT \<and>
   getSectionName (getSectionType example_platform ''tracepoint/'') = ''tracepoint/''"
proof -
  have m: "sectionNameTypes ! 4 \<in> set sectionNameTypes" by (simp add: sectionNameTypes_def)
  have n: "snt_name (sectionNameTypes ! 4) = ''tracepoint/''"
    "snt_type (sectionNameTypes ! 4) = BPF_PROG_TYPE_TRACEPOINT"
    by (simp_all add: sectionNameTypes_def)
  have p: "StartsWith ''tracepoint/sched_switch'' (snt_name (sectionNameTypes ! 4))"
    by (simp add: n StartsWith_def)
  from sectionNameTypes_round_trip[of example_platform] m p show ?thesis
    by (auto simp: n)
qed

text \<open>
  Claim C4 as stated fails: the first two entries have different prefixes and the same
  program type, and the round trip from \<open>kretprobe/\<close> ends at \<open>kprobe/\<close>.
\<close>

theorem sectionNameTypes_not_bijective_counterexample:
  "snt_type (sectionNameTypes ! 0) = snt_type (sectionNameTypes ! 1) \<and>
   snt_name (sectionNameTypes ! 0) \<noteq> snt_name (sectionNameTypes ! 1) \<and>
   getSectionName (getSectionType example_platform ''kretprobe/'') = ''kprobe/''"
  using getSectionType_prefixed(2)[of example_platform "[]"]
  by (simp add: getSectionName_values sectionNameTypes_def)

subsection \<open>Loops\<close>

lemma for_each_append:
  "for_each body (xs @ ys) s =
     (case for_each body xs s of Next s' \<Rightarrow> for_each body ys s' | Exit r \<Rightarrow> Exit r)"
  by (induction xs arbitrary: s) (auto split: flow.splits)

lemma upt_split: "k < n \<Longrightarrow> [0..<n] = [0..<k] @ k # [Suc k..<n]"
  by (metis less_imp_le_nat upt_add_eq_append upt_conv_Cons le_add_diff_inverse zero_le add_0)

lemma for_each_reach:
  assumes "k < n" "for_each body [0..<k] s = Next s'"
  shows "for_each body [0..<n] s =
     (case body k s' of Next s'' \<Rightarrow> for_each body [Suc k..<n] s'' | Exit r \<Rightarrow> Exit r)"
  using assms by (simp add: upt_split[of k n] for_each_append)

subsection \<open>The example objects\<close>

lemmas readable_defs = readable_elf_def shdr_def symbol_def

lemma pf_simps: "kernelVersion example_platform = 0x50a00" "page_size example_platform = 4096"
  by (simp_all add: example_platform_def)

lemmas map_def_simps = example_map_def_def example_devmap_def_def example_future_map_def_def

lemmas map_type_defs = BPF_MAP_TYPE_HASH_def BPF_MAP_TYPE_DEVMAP_HASH_def
  BPF_MAP_TYPE_DEVMAP_def BPF_MAP_TYPE_RINGBUF_def

lemma objName_foo: "pathToObjName ''foo.o'' = ''foo''"
  by (simp add: pathToObjName_def substr0_def)

lemma as_map: "as_bpf_map_def example_abi example_map_def_bytes = example_map_def"
  by (simp add: example_abi_def example_map_def_bytes_def example_map_def_def le_word_def
      BPF_MAP_TYPE_HASH_def)

lemma example_elf_byName:
  "readSectionByName example_elf ''critical'' = (- 2, [])"
  "readSectionByName example_elf ''license'' = (0, [0x47, 0x50, 0x4c, 0])"
  "readSectionByName example_elf ''maps'' = (0, example_map_def_bytes)"
  "readSectionByName example_elf ''progs'' = (0, example_prog_def_bytes)"
  by (simp_all add: example_elf_def readable_defs)

lemma example_elf_names:
  "getSectionSymNames example_elf ''maps'' None = (0, [''m''])"
  "getSectionSymNames example_elf ''progs'' None = (0, [''f_def''])"
  "getSectionSymNames example_elf ''tracepoint/f'' (Some STT_FUNC) = (0, [''f''])"
  by (simp_all add: getSectionSymNames_def example_elf_def readable_defs STT_FUNC_def
      ELF_ST_TYPE_def)

lemma example_elf_sym: "getSymNameByIdx example_elf 1 = Return (0, ''m'')"
  by (simp add: getSymNameByIdx_def example_elf_def readable_defs)

lemma example_elf_md:
  "records_of (sizeof_bpf_map_def example_abi) (as_bpf_map_def example_abi)
      example_map_def_bytes = [example_map_def]"
  "length example_map_def_bytes mod sizeof_bpf_map_def example_abi = 0"
  using as_map by (simp_all add: records_of_def example_abi_def example_map_def_bytes_def)

subsection \<open>Relocation\<close>

lemma le_word_imm_bytes:
  "(le_word [ucast v, ucast (drop_bit 8 v), ucast (drop_bit 16 v), ucast (drop_bit 24 v)] :: 32 word)
     = (v :: 32 word)"
proof (rule bit_word_eqI)
  fix n assume n: "n < LENGTH(32)"
  consider "n < 8" | "8 \<le> n" "n < 16" | "16 \<le> n" "n < 24" | "24 \<le> n" by linarith
  then show "bit (le_word [ucast v, ucast (drop_bit 8 v), ucast (drop_bit 16 v),
       ucast (drop_bit 24 v)] :: 32 word) n \<longleftrightarrow> bit v n"
    using n by cases (auto simp: le_word_def bit_simps)
qed

lemma src_reg_readback:
  "drop_bit 4 (take_bit 4 (b :: byte) OR push_bit 4 (r :: byte)) = take_bit 4 r"
  by (rule bit_word_eqI) (auto simp: bit_simps)

lemma drop_take_4: "drop_bit 4 (take_bit 4 (b :: byte)) = 0"
  by (rule bit_word_eqI) (auto simp: bit_simps)

lemma dst_reg_kept:
  "take_bit 4 (take_bit 4 (b :: byte) OR push_bit 4 (r :: byte)) = take_bit 4 b"
  by (rule bit_word_eqI) (auto simp: bit_simps)

lemma take4_drop:
  assumes "n + 4 \<le> length xs"
  shows "take 4 (drop n xs) = [xs ! n, xs ! (n + 1), xs ! (n + 2), xs ! (n + 3)]"
proof -
  have "drop n xs = xs ! n # xs ! Suc n # xs ! Suc (Suc n) # xs ! Suc (Suc (Suc n))
          # drop (Suc (Suc (Suc (Suc n)))) xs"
    using assms by (simp add: Cons_nth_drop_Suc)
  then show ?thesis by (simp add: numeral_3_eq_3)
qed

lemma uint_div8: "uint ((offset :: 64 word) div 8) = int (unat offset div 8)"
  by (simp add: uint_div zdiv_int)

lemma signed_take_bit_31: "(m :: nat) < 2 ^ 31 \<Longrightarrow> signed_take_bit 31 (int m) = int m"
  by (intro signed_take_bit_int_eq_self) simp_all

lemma insnIndex_small:
  assumes "offset < 2 ^ 34"
  shows "insnIndex offset = int (unat offset div sizeof_bpf_insn)"
proof -
  have "unat offset < 2 ^ 34" using assms by (simp add: word_less_nat_alt)
  then have "unat offset div 8 < 2 ^ 31" by simp
  then have "signed_take_bit 31 (int (unat offset div 8)) = int (unat offset div 8)"
    by (rule signed_take_bit_31)
  moreover have "insnIndex offset = signed_take_bit 31 (uint (offset div 8))"
    by (simp add: insnIndex_def sizeof_bpf_insn_def signed_ucast_eq)
  ultimately show ?thesis
    by (simp only: uint_div8 sizeof_bpf_insn_def)
qed

lemma first_index_Some:
  "first_index P xs = Some j \<Longrightarrow> j < length xs \<and> P (xs ! j) \<and> (\<forall>k<j. \<not> P (xs ! k))"
proof (induction xs arbitrary: j)
  case Nil then show ?case by simp
next
  case (Cons x xs)
  show ?case
  proof (cases "P x")
    case True with Cons.prems show ?thesis by simp
  next
    case False
    with Cons.prems obtain j' where j': "first_index P xs = Some j'" "j = Suc j'" by auto
    from Cons.IH[OF j'(1)] False j'(2) show ?thesis by (auto simp: less_Suc_eq_0_disj)
  qed
qed

lemma applyRelo_patch:
  fixes insns :: "byte list" and fd :: c_int and k :: nat
  assumes k: "sizeof_bpf_insn * k + sizeof_bpf_insn \<le> length insns"
  defines "insns' \<equiv> set_insn_src_reg (set_insn_imm insns k fd) k BPF_PSEUDO_MAP_FD"
  shows "insn_imm insns' k = fd" "insn_src_reg insns' k = BPF_PSEUDO_MAP_FD"
    "insn_dst_reg insns' k = insn_dst_reg insns k" "length insns' = length insns"
    "\<forall>p<length insns. p \<noteq> sizeof_bpf_insn * k + 1 \<and>
        \<not> (sizeof_bpf_insn * k + 4 \<le> p \<and> p < sizeof_bpf_insn * k + 8) \<longrightarrow> insns' ! p = insns ! p"
    "insn_code insns' k = insn_code insns k"
proof -
  have l: "8 * k + 8 \<le> length insns" using k by (simp add: sizeof_bpf_insn_def)
  have t: "take 4 (drop (8 * k + 4) insns') =
      [ucast fd, ucast (drop_bit 8 fd), ucast (drop_bit 16 fd), ucast (drop_bit 24 fd)]"
    using l by (simp add: take4_drop insns'_def set_insn_src_reg_def set_insn_imm_def
        sizeof_bpf_insn_def nth_list_update add.commute)
  show "insn_imm insns' k = fd"
    by (simp add: insn_imm_def sizeof_bpf_insn_def t le_word_imm_bytes)
  show "insn_src_reg insns' k = BPF_PSEUDO_MAP_FD"
    using l by (simp add: insn_src_reg_def insns'_def set_insn_src_reg_def set_insn_imm_def
        sizeof_bpf_insn_def drop_take_4 BPF_PSEUDO_MAP_FD_def)
  show "insn_dst_reg insns' k = insn_dst_reg insns k"
    using l by (simp add: insn_dst_reg_def insns'_def set_insn_src_reg_def set_insn_imm_def
        sizeof_bpf_insn_def BPF_PSEUDO_MAP_FD_def)
  show "length insns' = length insns"
    by (simp add: insns'_def set_insn_src_reg_def set_insn_imm_def)
  show "\<forall>p<length insns. p \<noteq> sizeof_bpf_insn * k + 1 \<and>
        \<not> (sizeof_bpf_insn * k + 4 \<le> p \<and> p < sizeof_bpf_insn * k + 8) \<longrightarrow> insns' ! p = insns ! p"
    by (auto simp: insns'_def set_insn_src_reg_def set_insn_imm_def sizeof_bpf_insn_def
        nth_list_update)
  show "insn_code insns' k = insn_code insns k"
    using l by (simp add: insn_code_def insns'_def set_insn_src_reg_def set_insn_imm_def
        sizeof_bpf_insn_def)
qed

lemma applyRelo_frame:
  assumes "applyRelo insns off fd = Return y"
  shows "length y = length insns"
    "\<forall>p<length insns. int (p div sizeof_bpf_insn) \<noteq> insnIndex off \<longrightarrow> y ! p = insns ! p"
proof -
  define t where "t = nat (insnIndex off)"
  have c: "y = insns \<or> (0 \<le> insnIndex off \<and>
      y = set_insn_src_reg (set_insn_imm insns t (fd)) t BPF_PSEUDO_MAP_FD)"
    using assms by (auto simp: applyRelo_def Let_def t_def split: if_splits)
  show "length y = length insns"
    using c by (auto simp: set_insn_src_reg_def set_insn_imm_def)
  show "\<forall>p<length insns. int (p div sizeof_bpf_insn) \<noteq> insnIndex off \<longrightarrow> y ! p = insns ! p"
  proof (intro allI impI)
    fix p assume p: "p < length insns" "int (p div sizeof_bpf_insn) \<noteq> insnIndex off"
    from c show "y ! p = insns ! p"
    proof
      assume "y = insns" then show ?thesis by simp
    next
      assume a: "0 \<le> insnIndex off \<and>
        y = set_insn_src_reg (set_insn_imm insns t fd) t BPF_PSEUDO_MAP_FD"
      then have "p div 8 \<noteq> t" using p(2) by (auto simp: t_def sizeof_bpf_insn_def)
      then have "p \<noteq> 8 * t + 1" "p \<noteq> 8 * t + 4" "p \<noteq> 8 * t + 5" "p \<noteq> 8 * t + 6"
        "p \<noteq> 8 * t + 7" by auto
      with a show ?thesis
        by (simp add: set_insn_src_reg_def set_insn_imm_def sizeof_bpf_insn_def)
    qed
  qed
qed

lemma applyMapRelo_entry_frame:
  assumes "applyMapRelo_entry elf mapNames mapFds rel i x = res"
    and "res = Next y \<or> res = Exit (Return y)"
  shows "length y = length x \<and>
    (\<forall>p<length x. int (p div sizeof_bpf_insn) \<noteq> insnIndex (r_offset rel i) \<longrightarrow> y ! p = x ! p)"
proof -
  have "y = x \<or> (\<exists>fd. applyRelo x (r_offset rel i) fd = Return y)"
    using assms
    by (auto simp: applyMapRelo_entry_def Let_def split: outcome.splits prod.splits if_splits
        option.splits)
  then show ?thesis using applyRelo_frame by blast
qed

lemma applyMapRelo_entries_frame:
  assumes "for_each (applyMapRelo_entry elf mapNames mapFds rel) js x = res"
    and "res = Next y \<or> res = Exit (Return y)"
  shows "length y = length x \<and>
    (\<forall>p<length x. (\<forall>i\<in>set js. int (p div sizeof_bpf_insn) \<noteq> insnIndex (r_offset rel i))
        \<longrightarrow> y ! p = x ! p)"
  using assms
proof (induction js arbitrary: x)
  case Nil
  then show ?case by auto
next
  case (Cons j js)
  show ?case
  proof (cases "applyMapRelo_entry elf mapNames mapFds rel j x")
    case (Next x1)
    from applyMapRelo_entry_frame[OF Next] have
      g: "length x1 = length x"
        "\<forall>p<length x. int (p div sizeof_bpf_insn) \<noteq> insnIndex (r_offset rel j) \<longrightarrow> x1 ! p = x ! p"
      by auto
    from Cons.prems Next have "for_each (applyMapRelo_entry elf mapNames mapFds rel) js x1 = res"
      by simp
    from Cons.IH[OF this Cons.prems(2)] g show ?thesis by auto
  next
    case (Exit e)
    with Cons.prems have e: "e = Return y" by auto
    from applyMapRelo_entry_frame[OF Exit[unfolded e]] show ?thesis by auto
  qed
qed

lemma applyMapRelo_section_frame:
  assumes "applyMapRelo_section elf mapNames mapFds k cs = res"
    and "res = Next cs' \<or> res = Exit (Return cs')"
  shows "length cs' = length cs \<and> (\<forall>m. m \<noteq> k \<longrightarrow> cs' ! m = cs ! m)"
  using assms
  by (auto simp: applyMapRelo_section_def split: flow.splits outcome.splits)

lemma applyMapRelo_sections_frame:
  assumes "for_each (applyMapRelo_section elf mapNames mapFds) ks cs = res"
    and "res = Next cs' \<or> res = Exit (Return cs')"
  shows "length cs' = length cs \<and> (\<forall>m. m \<notin> set ks \<longrightarrow> cs' ! m = cs ! m)"
  using assms
proof (induction ks arbitrary: cs)
  case Nil
  then show ?case by auto
next
  case (Cons k ks)
  show ?case
  proof (cases "applyMapRelo_section elf mapNames mapFds k cs")
    case (Next cs1)
    from applyMapRelo_section_frame[OF Next] have
      g: "length cs1 = length cs" "\<forall>m. m \<noteq> k \<longrightarrow> cs1 ! m = cs ! m" by auto
    from Cons.prems Next have "for_each (applyMapRelo_section elf mapNames mapFds) ks cs1 = res"
      by simp
    from Cons.IH[OF this Cons.prems(2)] g show ?thesis by auto
  next
    case (Exit e)
    with Cons.prems have e: "e = Return cs'" by auto
    from applyMapRelo_section_frame[OF Exit[unfolded e]] show ?thesis by auto
  qed
qed

lemma insn_fields_eq:
  assumes l: "length y = length x" and b: "sizeof_bpf_insn * t + sizeof_bpf_insn \<le> length x"
    and e: "\<forall>p<length x. p div sizeof_bpf_insn = t \<longrightarrow> y ! p = x ! p"
  shows "insn_code y t = insn_code x t" "insn_dst_reg y t = insn_dst_reg x t"
    "insn_src_reg y t = insn_src_reg x t" "insn_imm y t = insn_imm x t"
    "take sizeof_bpf_insn (drop (sizeof_bpf_insn * t) y)
       = take sizeof_bpf_insn (drop (sizeof_bpf_insn * t) x)"
proof -
  have b': "8 * t + 8 \<le> length x" using b by (simp add: sizeof_bpf_insn_def)
  have n: "y ! (8 * t + d) = x ! (8 * t + d)" if "d < 8" for d
  proof -
    have "(8 * t + d) div 8 = t" using that by simp
    moreover have "8 * t + d < length x" using that b' by simp
    ultimately show ?thesis using e by (simp add: sizeof_bpf_insn_def)
  qed
  from n[of 0] show "insn_code y t = insn_code x t"
    by (simp add: insn_code_def sizeof_bpf_insn_def)
  from n[of 1] show "insn_dst_reg y t = insn_dst_reg x t"
    by (simp add: insn_dst_reg_def sizeof_bpf_insn_def)
  from n[of 1] show "insn_src_reg y t = insn_src_reg x t"
    by (simp add: insn_src_reg_def sizeof_bpf_insn_def)
  have n': "y ! (8 * t + 4 + d) = x ! (8 * t + 4 + d)" if "d < 4" for d
    using n[of "4 + d"] that by (simp add: add.assoc)
  have "take 4 (drop (8 * t + 4) y) = take 4 (drop (8 * t + 4) x)"
    using n'[of 0] n'[of 1] n'[of 2] n'[of 3] b' l
    by (simp add: take4_drop)
  then show "insn_imm y t = insn_imm x t"
    by (simp add: insn_imm_def sizeof_bpf_insn_def)
  show "take sizeof_bpf_insn (drop (sizeof_bpf_insn * t) y)
       = take sizeof_bpf_insn (drop (sizeof_bpf_insn * t) x)"
  proof (rule nth_equalityI)
    show "length (take sizeof_bpf_insn (drop (sizeof_bpf_insn * t) y))
        = length (take sizeof_bpf_insn (drop (sizeof_bpf_insn * t) x))"
      using l by simp
  next
    fix d assume "d < length (take sizeof_bpf_insn (drop (sizeof_bpf_insn * t) y))"
    then have d: "d < 8" by (simp add: sizeof_bpf_insn_def)
    with b' l n[OF d]
    show "take sizeof_bpf_insn (drop (sizeof_bpf_insn * t) y) ! d
        = take sizeof_bpf_insn (drop (sizeof_bpf_insn * t) x) ! d"
      by (simp add: sizeof_bpf_insn_def)
  qed
qed

lemma applyMapRelo_resume:
  assumes names: "getSectionSymNames elf ''maps'' None = (0, mapNames)"
    and secs: "for_each (applyMapRelo_section elf mapNames mapFds) [0..<k] cs = Next cs1"
    and k: "k < length cs"
    and ents: "for_each (applyMapRelo_entry elf mapNames mapFds (rel_data (cs ! k))) [0..<i]
                 (data (cs ! k)) = Next insns"
    and i: "i < n_rel (rel_data (cs ! k))"
    and step: "applyMapRelo_entry elf mapNames mapFds (rel_data (cs ! k)) i insns = Next insns'"
  shows "applyMapRelo elf mapFds cs =
     (case for_each (applyMapRelo_entry elf mapNames mapFds (rel_data (cs ! k)))
             [Suc i..<n_rel (rel_data (cs ! k))] insns' of
        Next fin \<Rightarrow>
          (case for_each (applyMapRelo_section elf mapNames mapFds) [Suc k..<length cs]
                  (cs1[k := (cs ! k)\<lparr>data := fin\<rparr>]) of
             Next cs' \<Rightarrow> Return cs'
           | Exit r \<Rightarrow> r)
      | Exit (Return fin) \<Rightarrow> Return (cs1[k := (cs ! k)\<lparr>data := fin\<rparr>])
      | Exit Abort \<Rightarrow> Abort
      | Exit (OutOfBounds v x n) \<Rightarrow> OutOfBounds v x n)"
proof -
  have c: "cs1 ! k = cs ! k"
    using applyMapRelo_sections_frame[OF secs] by simp
  have inner: "for_each (applyMapRelo_entry elf mapNames mapFds (rel_data (cs ! k)))
      [0..<n_rel (rel_data (cs ! k))] (data (cs ! k))
    = for_each (applyMapRelo_entry elf mapNames mapFds (rel_data (cs ! k)))
             [Suc i..<n_rel (rel_data (cs ! k))] insns'"
    by (simp add: for_each_reach[OF i ents] step)
  show ?thesis
    using names
    by (simp add: applyMapRelo_def for_each_reach[OF k secs] applyMapRelo_section_def inner c
        split: flow.splits outcome.splits)
qed

lemma applyMapRelo_result:
  assumes names: "getSectionSymNames elf ''maps'' None = (0, mapNames)"
    and secs: "for_each (applyMapRelo_section elf mapNames mapFds) [0..<k] cs = Next cs1"
    and k: "k < length cs"
    and ents: "for_each (applyMapRelo_entry elf mapNames mapFds (rel_data (cs ! k))) [0..<i]
                 (data (cs ! k)) = Next insns"
    and i: "i < n_rel (rel_data (cs ! k))"
    and step: "applyMapRelo_entry elf mapNames mapFds (rel_data (cs ! k)) i insns = Next insns'"
    and ret: "applyMapRelo elf mapFds cs = Return cs'"
  shows "length cs' = length cs \<and>
    (\<exists>fin. cs' ! k = (cs ! k)\<lparr>data := fin\<rparr> \<and> length fin = length insns' \<and>
       (\<forall>p<length insns'.
           (\<forall>i'. i < i' \<and> i' < n_rel (rel_data (cs ! k))
               \<longrightarrow> int (p div sizeof_bpf_insn) \<noteq> insnIndex (r_offset (rel_data (cs ! k)) i'))
           \<longrightarrow> fin ! p = insns' ! p))"
proof -
  let ?rel = "rel_data (cs ! k)"
  define r1 where "r1 = for_each (applyMapRelo_entry elf mapNames mapFds ?rel)
      [Suc i..<n_rel ?rel] insns'"
  have l1: "length cs1 = length cs" using applyMapRelo_sections_frame[OF secs] by simp
  note e = applyMapRelo_resume[OF names secs k ents i step, folded r1_def]
  have fr: "length fin = length insns' \<and>
       (\<forall>p<length insns'.
           (\<forall>i'. i < i' \<and> i' < n_rel ?rel
               \<longrightarrow> int (p div sizeof_bpf_insn) \<noteq> insnIndex (r_offset ?rel i'))
           \<longrightarrow> fin ! p = insns' ! p)"
    if "r1 = Next fin \<or> r1 = Exit (Return fin)" for fin
    using applyMapRelo_entries_frame[OF r1_def[symmetric] that] by auto
  show ?thesis
  proof (cases r1)
    case (Next fin)
    define r2 where "r2 = for_each (applyMapRelo_section elf mapNames mapFds) [Suc k..<length cs]
        (cs1[k := (cs ! k)\<lparr>data := fin\<rparr>])"
    from e ret Next have "r2 = Next cs' \<or> r2 = Exit (Return cs')"
      by (auto simp: r2_def split: flow.splits)
    from applyMapRelo_sections_frame[OF r2_def[symmetric] this] l1 k
    have "length cs' = length cs" "cs' ! k = (cs ! k)\<lparr>data := fin\<rparr>" by auto
    with fr[of fin] Next show ?thesis by blast
  next
    case (Exit x)
    with e ret obtain fin where x: "x = Return fin" "cs' = cs1[k := (cs ! k)\<lparr>data := fin\<rparr>]"
      by (cases x) auto
    with l1 k have "length cs' = length cs" "cs' ! k = (cs ! k)\<lparr>data := fin\<rparr>" by auto
    with fr[of fin] Exit x show ?thesis by blast
  qed
qed

lemma example_rel: "r_offset example_rel_data 0 = 0"
  "ucast (ELF64_R_SYM (r_info example_rel_data 0)) = (1 :: c_int)"
  by (simp_all add: example_rel_data_def r_offset_def r_info_def le_word_def sizeof_Elf64_Rel_def
      ELF64_R_SYM_def)

lemma example_rel_past: "r_offset example_rel_data_past 0 = 16"
  "ucast (ELF64_R_SYM (r_info example_rel_data_past 0)) = (1 :: c_int)"
  "n_rel example_rel_data_past = 1"
  by (simp_all add: example_rel_data_past_def r_offset_def r_info_def le_word_def
      sizeof_Elf64_Rel_def ELF64_R_SYM_def n_rel_def)

text \<open>
  Claim C1 as stated fails: \<open>applyRelo\<close> is handed the section's buffer as a bare pointer,
  without its size, and does not compare the instruction index with it. The entry
  below is consumed and its symbol resolves to the map \<open>m\<close>, but its offset 16 is that of
  the instruction after the last of the 16-byte buffer: the opcode is read past the end
  of the buffer, so the entry is neither applied nor skipped with the instruction stream
  left unchanged.
\<close>

theorem applyMapRelo_target_past_the_stream_counterexample:
  "getSectionSymNames example_elf ''maps'' None = (0, [''m'']) \<and>
   getSymNameByIdx example_elf (ucast (ELF64_R_SYM (r_info example_rel_data_past 0)))
     = Return (0, ''m'') \<and>
   first_index (\<lambda>n. n = ''m'') [''m''] = Some 0 \<and>
   insnIndex (r_offset example_rel_data_past 0) = 2 \<and>
   length example_insns = 16 \<and>
   applyMapRelo example_elf [7] [example_cs_f\<lparr>rel_data := example_rel_data_past\<rparr>]
     = OutOfBounds ''insns'' 16 16"
proof -
  have a: "getSymNameByIdx example_elf (ucast (ELF64_R_SYM (r_info example_rel_data_past 0)))
     = Return (0, ''m'')"
    by (simp only: example_rel_past example_elf_sym)
  have b: "first_index (\<lambda>n. n = ''m'') [''m''] = Some 0" by simp
  have c: "insnIndex (r_offset example_rel_data_past 0) = 2"
    by (simp add: example_rel_past insnIndex_def sizeof_bpf_insn_def)
  have d: "length example_insns = 16" by (simp add: example_insns_def)
  have g: "applyRelo example_insns 16 7 = OutOfBounds ''insns'' 16 16"
    using c by (simp add: applyRelo_def example_rel_past d sizeof_bpf_insn_def)
  have h: "applyMapRelo_entry example_elf [''m''] [7] example_rel_data_past 0 example_insns
     = Exit (OutOfBounds ''insns'' 16 16)"
    by (simp add: applyMapRelo_entry_def example_rel_past example_elf_sym g)
  have k: "applyMapRelo_section example_elf [''m''] [7] 0
      [example_cs_f\<lparr>rel_data := example_rel_data_past\<rparr>] = Exit (OutOfBounds ''insns'' 16 16)"
    by (simp add: applyMapRelo_section_def example_cs_f_def example_rel_past h)
  have r: "applyMapRelo example_elf [7] [example_cs_f\<lparr>rel_data := example_rel_data_past\<rparr>]
     = OutOfBounds ''insns'' 16 16"
    by (simp add: applyMapRelo_def example_elf_names k)
  from example_elf_names(1) a b c d r show ?thesis by blast
qed

text \<open>
  Claim C1, as the code has it. The map names are read, and the loops of \<open>applyMapRelo\<close>
  have come to entry \<open>i\<close> of the relocation data of section \<open>k\<close> (the sections before
  \<open>k\<close> and the entries before \<open>i\<close> are done, \<open>insns\<close> being the section's buffer by then).
  The entry's symbol resolves to \<open>symName\<close>, a map name, first at position \<open>j\<close>, so the
  paired descriptor is \<open>mapFds ! j\<close>; and the instruction with the index \<open>t\<close> that
  \<open>applyRelo\<close> computes from the offset lies within the buffer. If that instruction's
  opcode is \<open>BPF_LD | BPF_IMM | BPF_DW\<close>, the entry sets its immediate to the descriptor
  and its source register to \<open>BPF_PSEUDO_MAP_FD\<close>; the buffer keeps its length, every
  byte other than byte 1 and bytes 4 to 7 of that instruction is unchanged, and of byte 1
  the destination-register half is unchanged. If the opcode differs, the entry leaves the
  buffer as it is. \<open>applyMapRelo\<close> then goes on from that buffer with the entries after
  \<open>i\<close> and the sections after \<open>k\<close>; when it returns, the vector has its length, section
  \<open>k\<close> differs from the one given in its \<open>data\<close> only, of the same length, and unless a
  later entry of the section has the same instruction index the eight bytes of
  instruction \<open>t\<close> are those the entry left.
\<close>

theorem applyMapRelo_patches_imm_and_src_reg_only:
  assumes names: "getSectionSymNames elf ''maps'' None = (0, mapNames)"
    and secs: "for_each (applyMapRelo_section elf mapNames mapFds) [0..<k] cs = Next cs1"
    and k: "k < length cs"
    and ents: "for_each (applyMapRelo_entry elf mapNames mapFds (rel_data (cs ! k))) [0..<i]
                 (data (cs ! k)) = Next insns"
    and i: "i < n_rel (rel_data (cs ! k))"
    and sym: "getSymNameByIdx elf (ucast (ELF64_R_SYM (r_info (rel_data (cs ! k)) i)))
                = Return (0, symName)"
    and nm: "first_index (\<lambda>n. n = symName) mapNames = Some j"
    and fd: "j < length mapFds"
    and idx: "insnIndex (r_offset (rel_data (cs ! k)) i) = int t"
    and inb: "sizeof_bpf_insn * t + sizeof_bpf_insn \<le> length (data (cs ! k))"
  shows "let rel = rel_data (cs ! k);
             insns' = (if insn_code insns t = (BPF_LD OR BPF_IMM OR BPF_DW)
                       then set_insn_src_reg (set_insn_imm insns t (mapFds ! j)) t BPF_PSEUDO_MAP_FD
                       else insns)
         in applyMapRelo_entry elf mapNames mapFds rel i insns = Next insns' \<and>
            (insn_code insns t = (BPF_LD OR BPF_IMM OR BPF_DW) \<longrightarrow>
               insn_imm insns' t = mapFds ! j \<and>
               insn_src_reg insns' t = BPF_PSEUDO_MAP_FD \<and>
               insn_dst_reg insns' t = insn_dst_reg insns t \<and>
               insn_code insns' t = insn_code insns t \<and>
               length insns' = length insns \<and>
               (\<forall>p<length insns. p \<noteq> sizeof_bpf_insn * t + 1 \<and>
                    \<not> (sizeof_bpf_insn * t + 4 \<le> p \<and> p < sizeof_bpf_insn * t + 8)
                  \<longrightarrow> insns' ! p = insns ! p)) \<and>
            applyMapRelo elf mapFds cs =
              (case for_each (applyMapRelo_entry elf mapNames mapFds rel) [Suc i..<n_rel rel]
                      insns' of
                 Next fin \<Rightarrow>
                   (case for_each (applyMapRelo_section elf mapNames mapFds) [Suc k..<length cs]
                           (cs1[k := (cs ! k)\<lparr>data := fin\<rparr>]) of
                      Next cs' \<Rightarrow> Return cs'
                    | Exit r \<Rightarrow> r)
               | Exit (Return fin) \<Rightarrow> Return (cs1[k := (cs ! k)\<lparr>data := fin\<rparr>])
               | Exit Abort \<Rightarrow> Abort
               | Exit (OutOfBounds v x n) \<Rightarrow> OutOfBounds v x n) \<and>
            (\<forall>cs'. applyMapRelo elf mapFds cs = Return cs' \<longrightarrow>
               length cs' = length cs \<and>
               (\<exists>fin. cs' ! k = (cs ! k)\<lparr>data := fin\<rparr> \<and> length fin = length (data (cs ! k)) \<and>
                  ((\<forall>i'. i < i' \<and> i' < n_rel rel \<longrightarrow> insnIndex (r_offset rel i') \<noteq> int t) \<longrightarrow>
                     take sizeof_bpf_insn (drop (sizeof_bpf_insn * t) fin)
                       = take sizeof_bpf_insn (drop (sizeof_bpf_insn * t) insns') \<and>
                     insn_imm fin t = insn_imm insns' t \<and>
                     insn_src_reg fin t = insn_src_reg insns' t)))"
proof -
  let ?rel = "rel_data (cs ! k)"
  define insns' where "insns' = (if insn_code insns t = (BPF_LD OR BPF_IMM OR BPF_DW)
      then set_insn_src_reg (set_insn_imm insns t (mapFds ! j)) t BPF_PSEUDO_MAP_FD else insns)"
  have len: "length insns = length (data (cs ! k))"
    using applyMapRelo_entries_frame[OF ents] by simp
  have l: "sizeof_bpf_insn * t + sizeof_bpf_insn \<le> length insns" using inb len by simp
  then have l': "\<not> length insns \<le> sizeof_bpf_insn * t"
    "\<not> length insns < sizeof_bpf_insn * t + sizeof_bpf_insn"
    by (simp_all add: sizeof_bpf_insn_def)
  have step: "applyMapRelo_entry elf mapNames mapFds ?rel i insns = Next insns'"
    using sym nm fd l' by (simp add: applyMapRelo_entry_def applyRelo_def idx insns'_def)
  have len': "length insns' = length insns"
    by (simp add: insns'_def set_insn_src_reg_def set_insn_imm_def)
  have patch: "insn_imm insns' t = mapFds ! j \<and>
               insn_src_reg insns' t = BPF_PSEUDO_MAP_FD \<and>
               insn_dst_reg insns' t = insn_dst_reg insns t \<and>
               insn_code insns' t = insn_code insns t \<and>
               length insns' = length insns \<and>
               (\<forall>p<length insns. p \<noteq> sizeof_bpf_insn * t + 1 \<and>
                    \<not> (sizeof_bpf_insn * t + 4 \<le> p \<and> p < sizeof_bpf_insn * t + 8)
                  \<longrightarrow> insns' ! p = insns ! p)"
    if "insn_code insns t = (BPF_LD OR BPF_IMM OR BPF_DW)"
    using applyRelo_patch[OF l, of "mapFds ! j"] that by (simp add: insns'_def)
  note resume = applyMapRelo_resume[OF names secs k ents i step]
  have fin: "length cs' = length cs \<and>
       (\<exists>fin. cs' ! k = (cs ! k)\<lparr>data := fin\<rparr> \<and> length fin = length (data (cs ! k)) \<and>
          ((\<forall>i'. i < i' \<and> i' < n_rel ?rel \<longrightarrow> insnIndex (r_offset ?rel i') \<noteq> int t) \<longrightarrow>
             take sizeof_bpf_insn (drop (sizeof_bpf_insn * t) fin)
               = take sizeof_bpf_insn (drop (sizeof_bpf_insn * t) insns') \<and>
             insn_imm fin t = insn_imm insns' t \<and>
             insn_src_reg fin t = insn_src_reg insns' t))"
    if ret: "applyMapRelo elf mapFds cs = Return cs'" for cs'
  proof -
    from applyMapRelo_result[OF names secs k ents i step ret] obtain fin where
      c: "length cs' = length cs" "cs' ! k = (cs ! k)\<lparr>data := fin\<rparr>"
        "length fin = length insns'"
      and f: "\<forall>p<length insns'.
           (\<forall>i'. i < i' \<and> i' < n_rel ?rel
               \<longrightarrow> int (p div sizeof_bpf_insn) \<noteq> insnIndex (r_offset ?rel i'))
           \<longrightarrow> fin ! p = insns' ! p"
      by blast
    have "take sizeof_bpf_insn (drop (sizeof_bpf_insn * t) fin)
               = take sizeof_bpf_insn (drop (sizeof_bpf_insn * t) insns') \<and>
             insn_imm fin t = insn_imm insns' t \<and>
             insn_src_reg fin t = insn_src_reg insns' t"
      if later: "\<forall>i'. i < i' \<and> i' < n_rel ?rel \<longrightarrow> insnIndex (r_offset ?rel i') \<noteq> int t"
    proof -
      have e: "\<forall>p<length insns'. p div sizeof_bpf_insn = t \<longrightarrow> fin ! p = insns' ! p"
      proof (intro allI impI)
        fix p assume p: "p < length insns'" "p div sizeof_bpf_insn = t"
        have "\<forall>i'. i < i' \<and> i' < n_rel ?rel
            \<longrightarrow> int (p div sizeof_bpf_insn) \<noteq> insnIndex (r_offset ?rel i')"
          using later p(2) by metis
        with f p(1) show "fin ! p = insns' ! p" by blast
      qed
      have b: "sizeof_bpf_insn * t + sizeof_bpf_insn \<le> length insns'" using l len' by simp
      from insn_fields_eq[OF c(3) b e] show ?thesis by simp
    qed
    with c len len' show ?thesis by auto
  qed
  from step patch resume fin show ?thesis
    unfolding Let_def insns'_def[symmetric] by blast
qed

theorem applyMapRelo_patches_imm_and_src_reg_only_witness:
  "getSymNameByIdx example_elf (ucast (ELF64_R_SYM (r_info example_rel_data 0)))
     = Return (0, ''m'') \<and>
   first_index (\<lambda>n. n = ''m'') [''m''] = Some 0 \<and>
   insnIndex (r_offset example_rel_data 0) = 0 \<and>
   insn_code example_insns 0 = (BPF_LD OR BPF_IMM OR BPF_DW) \<and>
   applyMapRelo_entry example_elf [''m''] [7] example_rel_data 0 example_insns
     = Next [0x18, 0x11, 0, 0, 7, 0, 0, 0, 0, 0, 0, 0, 0, 0, 0, 0] \<and>
   applyMapRelo example_elf [7] [example_cs_f]
     = Return [example_cs_f\<lparr>data := [0x18, 0x11, 0, 0, 7, 0, 0, 0, 0, 0, 0, 0, 0, 0, 0, 0]\<rparr>]"
proof -
  let ?cs = "[example_cs_f]"
  have rd: "rel_data (?cs ! 0) = example_rel_data" "data (?cs ! 0) = example_insns"
    "rel_data example_cs_f = example_rel_data" "data example_cs_f = example_insns"
    by (simp_all add: example_cs_f_def)
  have secs: "for_each (applyMapRelo_section example_elf [''m''] [7]) [0..<0] ?cs = Next ?cs"
    by simp
  have k: "0 < length ?cs" by simp
  have ents: "for_each (applyMapRelo_entry example_elf [''m''] [7] (rel_data (?cs ! 0))) [0..<0]
      (data (?cs ! 0)) = Next example_insns"
    by (simp add: rd)
  have n: "n_rel example_rel_data = 1"
    by (simp add: n_rel_def example_rel_data_def sizeof_Elf64_Rel_def)
  have i: "0 < n_rel (rel_data (?cs ! 0))" by (simp add: rd n)
  have a: "getSymNameByIdx example_elf (ucast (ELF64_R_SYM (r_info example_rel_data 0)))
     = Return (0, ''m'')"
    by (simp only: example_rel example_elf_sym)
  have sym: "getSymNameByIdx example_elf (ucast (ELF64_R_SYM (r_info (rel_data (?cs ! 0)) 0)))
     = Return (0, ''m'')"
    using a by (simp add: rd)
  have b: "first_index (\<lambda>n. n = ''m'') [''m''] = Some 0" by simp
  have fd: "0 < length [7 :: c_int]" by simp
  have c: "insnIndex (r_offset example_rel_data 0) = 0"
    by (simp add: example_rel insnIndex_def sizeof_bpf_insn_def)
  have idx: "insnIndex (r_offset (rel_data (?cs ! 0)) 0) = int 0" using c by (simp add: rd)
  have inb: "sizeof_bpf_insn * 0 + sizeof_bpf_insn \<le> length (data (?cs ! 0))"
    by (simp add: rd example_insns_def sizeof_bpf_insn_def)
  have f: "insn_code example_insns 0 = (BPF_LD OR BPF_IMM OR BPF_DW)"
    by (simp add: example_insns_def insn_code_def BPF_LD_def BPF_IMM_def BPF_DW_def)
  have p: "set_insn_src_reg (set_insn_imm example_insns 0 7) 0 BPF_PSEUDO_MAP_FD
      = [0x18, 0x11, 0, 0, 7, 0, 0, 0, 0, 0, 0, 0, 0, 0, 0, 0]"
    by (simp add: example_insns_def set_insn_src_reg_def set_insn_imm_def sizeof_bpf_insn_def
          BPF_PSEUDO_MAP_FD_def)
  note t = applyMapRelo_patches_imm_and_src_reg_only[OF example_elf_names(1) secs k ents i sym b
      fd idx inb]
  from t have s: "applyMapRelo_entry example_elf [''m''] [7] example_rel_data 0 example_insns
     = Next [0x18, 0x11, 0, 0, 7, 0, 0, 0, 0, 0, 0, 0, 0, 0, 0, 0]"
    by (simp add: Let_def rd f p)
  from t have r: "applyMapRelo example_elf [7] [example_cs_f]
     = Return [example_cs_f\<lparr>data := [0x18, 0x11, 0, 0, 7, 0, 0, 0, 0, 0, 0, 0, 0, 0, 0, 0]\<rparr>]"
    by (simp add: Let_def rd f p n)
  from a b c f s r show ?thesis by blast
qed

subsection \<open>Reading the code sections\<close>

lemma getSectionSymNames_ok_stream:
  assumes "getSectionSymNames elf nm ty = (0, xs)"
  shows "progs_names_stream elf = elf"
proof -
  have "fst (readSymTab elf True) = 0"
    using assms by (auto simp: getSectionSymNames_def split: prod.splits if_splits)
  then show ?thesis by (simp add: progs_names_stream_def stream_after_def)
qed



lemma as_example_prog_def: "as_bpf_prog_def example_abi example_prog_def_bytes = example_prog_def"
  by (simp add: example_abi_def example_prog_def_bytes_def example_prog_def_def le_word_def)

lemma cl_hdr: "readSectionHeadersAll example_elf_code_last = (0, [shdr 0, shdr 2, shdr 3])"
  by (simp add: example_elf_code_last_def readable_elf_def)

lemma cl_pd: "readProgDefs example_abi example_elf_code_last = (0, [example_prog_def])"
  apply (simp add: readProgDefs_def example_elf_code_last_def readable_defs records_of_def)
  apply (simp add: example_abi_def example_prog_def_bytes_def example_prog_def_def le_word_def)
  done

lemma cl_names: "getSectionSymNames example_elf_code_last ''progs'' None = (0, [''f_def''])"
  by (simp add: getSectionSymNames_def example_elf_code_last_def readable_defs)

lemma cl_func: "getSectionSymNames example_elf_code_last ''kprobe/f'' (Some STT_FUNC) = (0, [''f''])"
  by (simp add: getSectionSymNames_def example_elf_code_last_def readable_defs STT_FUNC_def ELF_ST_TYPE_def)

lemma kprobe_f: "getSectionType pf ''kprobe/f'' = BPF_PROG_TYPE_KPROBE"
  using getSectionType_prefixed(1)[of pf "''f''"] by simp

lemma getSectionType_other:
  "getSectionType example_platform [] = BPF_PROG_TYPE_UNSPEC"
  "getSectionType example_platform ''progs'' = BPF_PROG_TYPE_UNSPEC"
  by (simp_all add: getSectionType_def sectionNameTypes_def StartsWith_def example_platform_def)

lemma tracepoint_x: "getSectionType pf (''tracepoint/'' @ t) = BPF_PROG_TYPE_TRACEPOINT"
  by (rule getSectionType_prefixed)








text \<open>
  Claim C9 as stated fails: the last section header of this object names the recognized
  code section \<open>kprobe/f\<close>, whose data is not empty, and with an allow-list that does not
  hold its program type \<open>readCodeSections\<close> returns -1 at the test of \<open>IsAllowed\<close>, before
  the lookup of the relocation section: nothing is read past the end of \<open>shTable\<close>.
\<close>

theorem readCodeSections_disallowed_last_section_counterexample:
  "readSectionHeadersAll example_elf_code_last = (0, [shdr 0, shdr 2, shdr 3]) \<and>
   getSymName example_elf_code_last (sh_name (last [shdr 0, shdr 2, shdr 3])) = (0, ''kprobe/f'') \<and>
   getSectionType example_platform ''kprobe/f'' = BPF_PROG_TYPE_KPROBE \<and>
   BPF_PROG_TYPE_KPROBE \<noteq> BPF_PROG_TYPE_UNSPEC \<and>
   readSectionByIdx example_elf_code_last 2 = (0, [0x95, 0, 0, 0, 0, 0, 0, 0]) \<and>
   readCodeSections example_platform example_abi example_elf_code_last
       (Some [BPF_PROG_TYPE_TRACEPOINT])
     = Return (- 1, [])"
proof -
  let ?sh = "[shdr 0, shdr 2, shdr 3]"
  let ?body = "readCodeSections_body example_platform example_elf_code_last
      (Some [BPF_PROG_TYPE_TRACEPOINT]) ?sh [example_prog_def] [''f_def''] (length ?sh)"
  have nm: "getSymName example_elf_code_last (sh_name (last ?sh)) = (0, ''kprobe/f'')"
    by (simp add: example_elf_code_last_def readable_defs)
  have ne: "BPF_PROG_TYPE_KPROBE \<noteq> BPF_PROG_TYPE_UNSPEC"
    "BPF_PROG_TYPE_KPROBE \<noteq> BPF_PROG_TYPE_TRACEPOINT"
    "BPF_PROG_TYPE_TRACEPOINT \<noteq> BPF_PROG_TYPE_UNSPEC"
    by (simp_all add: BPF_PROG_TYPE_KPROBE_def BPF_PROG_TYPE_UNSPEC_def
        BPF_PROG_TYPE_TRACEPOINT_def)
  have b: "readSectionByIdx example_elf_code_last 2 = (0, [0x95, 0, 0, 0, 0, 0, 0, 0])"
    by (simp add: example_elf_code_last_def readable_defs)
  have s0: "?body 0 [] = Next []"
    by (simp add: readCodeSections_body_def example_elf_code_last_def readable_defs
        getSectionType_other)
  have s1: "?body 1 [] = Next []"
    by (simp add: readCodeSections_body_def example_elf_code_last_def readable_defs
        getSectionType_other)
  have s2: "?body 2 [] = Exit (Return (- 1, []))"
    using nm by (simp add: readCodeSections_body_def kprobe_f ne IsAllowed_def)
  have l: "[0..<length ?sh] = [0, 1, 2]" by (simp add: upt_rec)
  have "for_each ?body [0..<length ?sh] [] = Exit (Return (- 1, []))"
    unfolding l by (simp only: for_each.simps s0 s1 s2 flow.case)
  then have r: "readCodeSections example_platform example_abi example_elf_code_last
       (Some [BPF_PROG_TYPE_TRACEPOINT]) = Return (- 1, [])"
    by (simp add: readCodeSections_def cl_hdr cl_pd cl_names Let_def
        getSectionSymNames_ok_stream[OF cl_names])
  from cl_hdr nm kprobe_f ne(1) b r show ?thesis by blast
qed

text \<open>
  Claim C9, as the code has it. The object's headers and program definitions are read,
  the loop has gone through every section before the last without returning, and the
  last section header names a recognized code section that is allowed, whose data is
  read and non-empty and which has a function symbol. Then the lookup of the relocation
  section reads \<open>shTable[i + 1]\<close> with \<open>i + 1\<close> equal to the number of section headers:
  the guard \<open>i < entries\<close> holds for every index the loop takes, so it does not stop the
  access past the end of the table.
\<close>

theorem readCodeSections_rel_lookup_reads_past_shTable:
  assumes hdr: "readSectionHeadersAll elf = (0, shTable)"
    and pd: "readProgDefs ab elf = (0, pd)"
    and names: "getSectionSymNames elf ''progs'' None = (r, progDefNames)" "pd = [] \<or> r = 0"
    and ne: "shTable \<noteq> []"
    and reach: "for_each (readCodeSections_body pf elf allowed shTable pd progDefNames
                  (length shTable)) [0..<length shTable - 1] [] = Next cs"
    and nm: "getSymName elf (sh_name (shTable ! (length shTable - 1))) = (0, nm)"
    and recognized: "getSectionType pf nm \<noteq> BPF_PROG_TYPE_UNSPEC"
    and allowed: "IsAllowed pf (getSectionType pf nm) allowed"
    and bytes: "readSectionByIdx elf (length shTable - 1) = (0, bytes)" "bytes \<noteq> []"
    and func: "getSectionSymNames elf nm (Some STT_FUNC) = (0, syms)" "syms \<noteq> []"
    and def: "find_prog_def progDefNames (hd syms @ ''_def'') pd = Return d"
  shows "readCodeSections pf ab elf allowed
           = OutOfBounds ''shTable'' (int (length shTable)) (length shTable) \<and>
         (\<forall>i \<in> set [0..<length shTable]. i < length shTable)"
proof -
  have k: "length shTable - 1 < length shTable" using ne by simp
  have step: "readCodeSections_body pf elf allowed shTable pd progDefNames (length shTable)
      (length shTable - 1) cs = Exit (OutOfBounds ''shTable'' (int (length shTable)) (length shTable))"
    using nm recognized allowed bytes func def ne by (simp add: readCodeSections_body_def)
  have "for_each (readCodeSections_body pf elf allowed shTable pd progDefNames (length shTable))
      [0..<length shTable] [] = Exit (OutOfBounds ''shTable'' (int (length shTable)) (length shTable))"
    using for_each_reach[OF k reach] step by simp
  then have "readCodeSections pf ab elf allowed
      = OutOfBounds ''shTable'' (int (length shTable)) (length shTable)"
    using hdr pd names getSectionSymNames_ok_stream[OF func(1)]
    by (auto simp: readCodeSections_def Let_def)
  then show ?thesis by simp
qed

theorem readCodeSections_rel_lookup_reads_past_shTable_witness:
  "readSectionHeadersAll example_elf_code_last = (0, [shdr 0, shdr 2, shdr 3]) \<and>
   getSymName example_elf_code_last (sh_name (shdr 3)) = (0, ''kprobe/f'') \<and>
   getSectionType example_platform ''kprobe/f'' = BPF_PROG_TYPE_KPROBE \<and>
   readSectionByIdx example_elf_code_last 2 = (0, [0x95, 0, 0, 0, 0, 0, 0, 0]) \<and>
   readCodeSections example_platform example_abi example_elf_code_last None
     = OutOfBounds ''shTable'' 3 3"
proof -
  let ?sh = "[shdr 0, shdr 2, shdr 3]"
  have reach: "for_each (readCodeSections_body example_platform example_elf_code_last None ?sh
      [example_prog_def] [''f_def''] (length ?sh)) [0..<length ?sh - 1] [] = Next []"
    by (simp add: upt_rec readCodeSections_body_def example_elf_code_last_def readable_defs
        getSectionType_other)
  have nm: "getSymName example_elf_code_last (sh_name (?sh ! (length ?sh - 1))) = (0, ''kprobe/f'')"
    by (simp add: example_elf_code_last_def readable_defs)
  have rec: "getSectionType example_platform ''kprobe/f'' \<noteq> BPF_PROG_TYPE_UNSPEC"
    by (simp add: kprobe_f BPF_PROG_TYPE_KPROBE_def BPF_PROG_TYPE_UNSPEC_def)
  have al: "IsAllowed example_platform (getSectionType example_platform ''kprobe/f'') None"
    by (simp add: IsAllowed_def)
  have bytes: "readSectionByIdx example_elf_code_last (length ?sh - 1) = (0, [0x95, 0, 0, 0, 0, 0, 0, 0])"
    "[0x95, 0, 0, 0, 0, 0, 0, 0] \<noteq> ([] :: byte list)"
    by (simp_all add: example_elf_code_last_def readable_defs)
  have def: "find_prog_def [''f_def''] (hd [''f''] @ ''_def'') [example_prog_def]
      = Return (Some example_prog_def)"
    by (simp add: find_prog_def_def)
  have r: "readCodeSections example_platform example_abi example_elf_code_last None
     = OutOfBounds ''shTable'' 3 3"
    using readCodeSections_rel_lookup_reads_past_shTable[OF cl_hdr cl_pd cl_names _ _ reach nm rec al bytes cl_func _ def]
    by (simp add: numeral_3_eq_3)
  have n: "getSymName example_elf_code_last (sh_name (shdr 3)) = (0, ''kprobe/f'')"
    using nm by simp
  have b: "readSectionByIdx example_elf_code_last 2 = (0, [0x95, 0, 0, 0, 0, 0, 0, 0])"
    using bytes(1) by (simp add: numeral_2_eq_2)
  from cl_hdr n kprobe_f b r show ?thesis by blast
qed



subsection \<open>Installing the maps\<close>

lemma mapMatchesExpectations_eq:
  "mapMatchesExpectations pf K fd nm m ty tr =
     (live_map_attrs K fd tr = desired_map_attrs pf m ty, tr @ map_attr_queries fd)"
  by (simp add: mapMatchesExpectations_def sys_def live_map_attrs_def desired_map_attrs_def
      map_attr_queries_def Let_def)


lemma createMaps_body_included:
  assumes "i < length md" "zero (md ! i) = 0" "\<not> excluded_map pf (md ! i)"
    and "createMaps_fd pf K pfx objName (md ! i) (mapNames ! i) tr = (reuse, f, tr1)"
    and "ok (rv f)"
  shows "createMaps_body pf K objName pfx md mapNames i (ret, mapFds, tr) =
     (if live_map_attrs K (rv f) tr1 \<noteq> desired_map_attrs pf (md ! i) (createMaps_type pf (md ! i))
      then Exit (Return (- ENOTUNIQ, mapFds, tr1 @ map_attr_queries (rv f)))
      else if reuse then
        Next (ret, mapFds @ [rv f], tr1 @ map_attr_queries (rv f) @ [Syscall (bpfGetFdMapId (rv f))])
      else
        (let pinLoc = mapPinLoc pfx objName (md ! i) (mapNames ! i);
             tr2 = tr1 @ map_attr_queries (rv f);
             (p, tr3) = sys K (bpfFdPin (rv f) pinLoc) tr2 in
         if rv p \<noteq> 0 then Exit (Return (- errno p, mapFds, tr3))
         else
           let (c, tr4) = sys K (chmod pinLoc (mode (md ! i))) tr3 in
           if rv c \<noteq> 0 then Exit (Return (- errno c, mapFds, tr4))
           else
             let (w, tr5) = sys K (chown pinLoc (bpf_map_def.uid (md ! i))
                                    (bpf_map_def.gid (md ! i))) tr4 in
             if rv w \<noteq> 0 then Exit (Return (- errno w, mapFds, tr5))
             else Next (rv w, mapFds @ [rv f], tr5 @ [Syscall (bpfGetFdMapId (rv f))])))"
proof -
  have a: "\<not> kernelVersion pf < bpf_map_def.min_kver (md ! i)"
    "\<not> bpf_map_def.max_kver (md ! i) \<le> kernelVersion pf"
    using assms(3) by (auto simp: excluded_map_def)
  show ?thesis
    using assms(1,2,4,5) a
    by (simp add: createMaps_body_def mapMatchesExpectations_eq Let_def sys_def
        split: prod.splits)
qed



lemma stale_fd:
  "createMaps_fd example_platform stale_pin_kernel ''test_'' ''foo'' example_map_def ''m'' []
     = (True, no_reply\<lparr>rv := 5, errno := 0\<rparr>,
        [Syscall (access ''/sys/fs/bpf/test_map_foo_m''),
         Syscall (mapRetrieveRO ''/sys/fs/bpf/test_map_foo_m'')])"
  by (simp add: createMaps_fd_def sys_def stale_pin_kernel_def mapPinLoc_def BPF_FS_PATH_def
      map_def_simps no_reply_def)

lemma fresh_fd:
  "createMaps_fd example_platform fresh_kernel ''test_'' ''foo'' example_devmap_def ''m'' []
     = (False, no_reply\<lparr>rv := 5, errno := 0\<rparr>,
        [Syscall (access ''/sys/fs/bpf/test_map_foo_m''),
         Syscall (BPF_MAP_CREATE BPF_MAP_TYPE_DEVMAP 4 4 64 0 ''m'')])"
  by (simp add: createMaps_fd_def sys_def fresh_kernel_def mapPinLoc_def BPF_FS_PATH_def
      map_def_simps no_reply_def createMaps_type_def createMaps_max_entries_def
      BPF_MAP_TYPE_HASH_def BPF_MAP_TYPE_DEVMAP_HASH_def
      BPF_MAP_TYPE_DEVMAP_def BPF_MAP_TYPE_RINGBUF_def)

lemma fresh_live:
  "live_map_attrs fresh_kernel 5
     [Syscall (access ''/sys/fs/bpf/test_map_foo_m''),
      Syscall (BPF_MAP_CREATE BPF_MAP_TYPE_DEVMAP 4 4 64 0 ''m'')] = (14, 4, 4, 64, 128)"
  by (simp add: live_map_attrs_def fresh_kernel_def created_attr_def map_attr_queries_def
      no_reply_def map_type_defs BPF_F_RDONLY_PROG_def)

lemma devmap_want:
  "desired_map_attrs example_platform example_devmap_def
       (createMaps_type example_platform example_devmap_def) = (14, 4, 4, 64, 128)"
  by (simp add: desired_map_attrs_def createMaps_type_def desired_max_entries_def
      desired_map_flags_def map_def_simps map_type_defs BPF_F_RDONLY_PROG_def)

lemma fresh_body:
  "createMaps_body example_platform fresh_kernel ''foo'' ''test_'' [example_devmap_def] [''m''] 0
       (0, [], []) = Next (0, [5], example_create_trace)"
proof -
  let ?md = "[example_devmap_def]"
  have i: "0 < length ?md" by simp
  have z: "zero (?md ! 0) = 0" by (simp add: map_def_simps)
  have x: "\<not> excluded_map example_platform (?md ! 0)"
    by (simp add: excluded_map_def pf_simps map_def_simps)
  have fd: "createMaps_fd example_platform fresh_kernel ''test_'' ''foo'' (?md ! 0)
       ([''m''] ! 0) [] = (False, no_reply\<lparr>rv := 5, errno := 0\<rparr>,
        [Syscall (access ''/sys/fs/bpf/test_map_foo_m''),
         Syscall (BPF_MAP_CREATE BPF_MAP_TYPE_DEVMAP 4 4 64 0 ''m'')])"
    using fresh_fd by simp
  have ok: "ok (rv (no_reply\<lparr>rv := 5, errno := 0\<rparr>))" by (simp add: ok_def)
  show ?thesis
    unfolding createMaps_body_included[OF i z x fd ok]
    by (simp add: fresh_live devmap_want)
       (simp add: sys_def fresh_kernel_def no_reply_def mapPinLoc_def BPF_FS_PATH_def
          map_def_simps example_create_trace_def Let_def)
qed

lemma createMaps_loop:
  assumes "readSectionByName elf ''maps'' = (0, mdData)"
    and "length mdData mod sizeof_bpf_map_def ab = 0"
    and "getSectionSymNames elf ''maps'' None = (0, mapNames)"
  shows "createMaps pf ab K elfPath elf mapFds pfx tr =
     (case for_each (createMaps_body pf K (pathToObjName elfPath) pfx
                       (records_of (sizeof_bpf_map_def ab) (as_bpf_map_def ab) mdData) mapNames)
             [0..<length mapNames] (0, mapFds, tr) of
        Next st \<Rightarrow> Return st
      | Exit r \<Rightarrow> r)"
  using assms by (simp add: createMaps_def Let_def)




text \<open>
  Claim C3. The \<open>maps\<close> section and the map names are read, and the loop of \<open>createMaps\<close>
  has come to map \<open>i\<close>, which passes the version gate and for which a descriptor is
  obtained, by reuse of the pin or by creation (\<open>reuse\<close> is either). Then
  \<open>mapMatchesExpectations\<close> asks the kernel for the type, key size, value size, max
  entries and flags of that descriptor and compares them with the desired ones. If any
  of the five differs, \<open>createMaps\<close> returns \<open>-ENOTUNIQ\<close>, which is not 0, with the
  descriptors of the earlier maps and the history up to the five queries. If the step
  goes on to the next map, and so whenever \<open>createMaps\<close> returns 0, all five are equal.
\<close>

theorem map_shape_is_checked_on_create_and_reuse:
  assumes maps: "readSectionByName elf ''maps'' = (0, mdData)"
    and sz: "length mdData mod sizeof_bpf_map_def ab = 0"
    and names: "getSectionSymNames elf ''maps'' None = (0, mapNames)"
    and md: "md = records_of (sizeof_bpf_map_def ab) (as_bpf_map_def ab) mdData"
    and reach: "for_each (createMaps_body pf K (pathToObjName elfPath) pfx md mapNames) [0..<i]
                  (0, mapFds0, tr0) = Next (ret, mapFds, tr)"
    and n: "i < length mapNames"
    and i: "i < length md" and z: "zero (md ! i) = 0" and x: "\<not> excluded_map pf (md ! i)"
    and fd: "createMaps_fd pf K pfx (pathToObjName elfPath) (md ! i) (mapNames ! i) tr
               = (reuse, f, tr1)"
    and ok: "ok (rv f)"
  shows "mapMatchesExpectations pf K (rv f) (mapNames ! i) (md ! i) (createMaps_type pf (md ! i)) tr1
           = (live_map_attrs K (rv f) tr1
                = desired_map_attrs pf (md ! i) (createMaps_type pf (md ! i)),
              tr1 @ map_attr_queries (rv f)) \<and>
         (live_map_attrs K (rv f) tr1 \<noteq> desired_map_attrs pf (md ! i) (createMaps_type pf (md ! i))
            \<longrightarrow> createMaps pf ab K elfPath elf mapFds0 pfx tr0
                  = Return (- ENOTUNIQ, mapFds, tr1 @ map_attr_queries (rv f)) \<and>
                - ENOTUNIQ \<noteq> (0 :: c_int)) \<and>
         (\<forall>st. createMaps_body pf K (pathToObjName elfPath) pfx md mapNames i (ret, mapFds, tr)
                 = Next st
            \<longrightarrow> live_map_attrs K (rv f) tr1
                  = desired_map_attrs pf (md ! i) (createMaps_type pf (md ! i))) \<and>
         (\<forall>fds tr'. createMaps pf ab K elfPath elf mapFds0 pfx tr0 = Return (0, fds, tr')
            \<longrightarrow> live_map_attrs K (rv f) tr1
                  = desired_map_attrs pf (md ! i) (createMaps_type pf (md ! i)))"
proof -
  note b = createMaps_body_included[OF i z x fd ok, of ret mapFds]
  note c = createMaps_loop[OF maps sz names, of pf K elfPath mapFds0 pfx tr0, folded md]
  have e: "- ENOTUNIQ \<noteq> (0 :: c_int)" by (simp add: ENOTUNIQ_def)
  have m: "createMaps pf ab K elfPath elf mapFds0 pfx tr0
          = Return (- ENOTUNIQ, mapFds, tr1 @ map_attr_queries (rv f))"
    if "live_map_attrs K (rv f) tr1 \<noteq> desired_map_attrs pf (md ! i) (createMaps_type pf (md ! i))"
    using for_each_reach[OF n reach] that by (simp add: b c)
  have q: "mapMatchesExpectations pf K (rv f) (mapNames ! i) (md ! i)
             (createMaps_type pf (md ! i)) tr1
           = (live_map_attrs K (rv f) tr1
                = desired_map_attrs pf (md ! i) (createMaps_type pf (md ! i)),
              tr1 @ map_attr_queries (rv f))"
    by (rule mapMatchesExpectations_eq)
  have s: "live_map_attrs K (rv f) tr1
             = desired_map_attrs pf (md ! i) (createMaps_type pf (md ! i))"
    if "createMaps_body pf K (pathToObjName elfPath) pfx md mapNames i (ret, mapFds, tr) = Next st"
    for st
    using that by (simp add: b split: if_splits)
  have r: "live_map_attrs K (rv f) tr1
             = desired_map_attrs pf (md ! i) (createMaps_type pf (md ! i))"
    if "createMaps pf ab K elfPath elf mapFds0 pfx tr0 = Return (0, fds, tr')" for fds tr'
    using m that e by fastforce
  from q m e s r show ?thesis by blast
qed

theorem map_shape_is_checked_on_create_and_reuse_witness:
  "createMaps_fd example_platform stale_pin_kernel ''test_'' ''foo'' example_map_def ''m'' []
     = (True, no_reply\<lparr>rv := 5, errno := 0\<rparr>,
        [Syscall (access ''/sys/fs/bpf/test_map_foo_m''),
         Syscall (mapRetrieveRO ''/sys/fs/bpf/test_map_foo_m'')]) \<and>
   ok 5 \<and>
   live_map_attrs stale_pin_kernel 5
       [Syscall (access ''/sys/fs/bpf/test_map_foo_m''),
        Syscall (mapRetrieveRO ''/sys/fs/bpf/test_map_foo_m'')] = (1, 4, 4, 64, 0) \<and>
   desired_map_attrs example_platform example_map_def
       (createMaps_type example_platform example_map_def) = (1, 4, 8, 64, 0) \<and>
   createMaps example_platform example_abi stale_pin_kernel ''foo.o'' example_elf [] ''test_'' []
     = Return (- ENOTUNIQ, [],
         [Syscall (access ''/sys/fs/bpf/test_map_foo_m''),
          Syscall (mapRetrieveRO ''/sys/fs/bpf/test_map_foo_m'')] @ map_attr_queries 5)"
proof -
  let ?md = "[example_map_def]"
  let ?tr1 = "[Syscall (access ''/sys/fs/bpf/test_map_foo_m''),
               Syscall (mapRetrieveRO ''/sys/fs/bpf/test_map_foo_m'')]"
  have md: "?md = records_of (sizeof_bpf_map_def example_abi) (as_bpf_map_def example_abi)
      example_map_def_bytes"
    by (simp add: example_elf_md)
  have reach: "for_each (createMaps_body example_platform stale_pin_kernel
       (pathToObjName ''foo.o'') ''test_'' ?md [''m'']) [0..<0] (0, [], []) = Next (0, [], [])"
    by simp
  have n: "0 < length [''m'']" by simp
  have i: "0 < length ?md" by simp
  have z: "zero (?md ! 0) = 0" by (simp add: map_def_simps)
  have x: "\<not> excluded_map example_platform (?md ! 0)"
    by (simp add: excluded_map_def pf_simps map_def_simps)
  have fd0: "createMaps_fd example_platform stale_pin_kernel ''test_'' ''foo'' example_map_def
       ''m'' [] = (True, no_reply\<lparr>rv := 5, errno := 0\<rparr>, ?tr1)"
    by (rule stale_fd)
  have fd: "createMaps_fd example_platform stale_pin_kernel ''test_'' (pathToObjName ''foo.o'')
       (?md ! 0) ([''m''] ! 0) [] = (True, no_reply\<lparr>rv := 5, errno := 0\<rparr>, ?tr1)"
    using stale_fd by (simp add: objName_foo)
  have ok: "ok (rv (no_reply\<lparr>rv := 5, errno := 0\<rparr>))" by (simp add: ok_def)
  have live: "live_map_attrs stale_pin_kernel 5 ?tr1 = (1, 4, 4, 64, 0)"
    by (simp add: live_map_attrs_def stale_pin_kernel_def BPF_MAP_TYPE_HASH_def)
  have want: "desired_map_attrs example_platform example_map_def
       (createMaps_type example_platform example_map_def) = (1, 4, 8, 64, 0)"
    by (simp add: desired_map_attrs_def createMaps_type_def desired_max_entries_def
        desired_map_flags_def map_def_simps map_type_defs)
  from map_shape_is_checked_on_create_and_reuse[OF example_elf_byName(3) example_elf_md(2)
      example_elf_names(1) md reach n i z x fd ok] live want
  have "createMaps example_platform example_abi stale_pin_kernel ''foo.o'' example_elf []
      ''test_'' [] = Return (- ENOTUNIQ, [], ?tr1 @ map_attr_queries 5)"
    by simp
  with fd0 live want show ?thesis by (simp add: ok_def)
qed

lemma flag_included: "(a OR BPF_F_RDONLY_PROG) AND BPF_F_RDONLY_PROG = BPF_F_RDONLY_PROG"
  by (rule bit_word_eqI) (auto simp: bit_simps)

text \<open>
  Claim C5 reads the flag as ORed into the flags the loader uses for the map it creates.
  The \<open>BPF_MAP_CREATE\<close> request carries \<open>md[i].map_flags\<close> as they are: for a device map
  defined with flags 0 on a kernel with no pin, the request is made with flags 0, which do
  not include \<open>BPF_F_RDONLY_PROG\<close>.
\<close>

theorem devmap_create_request_lacks_rdonly_prog_counterexample:
  "createMaps_type example_platform example_devmap_def = BPF_MAP_TYPE_DEVMAP \<and>
   map_flags example_devmap_def = 0 \<and>
   snd (snd (createMaps_fd example_platform fresh_kernel ''test_'' ''foo'' example_devmap_def
               ''m'' []))
     = [Syscall (access ''/sys/fs/bpf/test_map_foo_m''),
        Syscall (BPF_MAP_CREATE BPF_MAP_TYPE_DEVMAP 4 4 64 0 ''m'')] \<and>
   (0 :: 32 word) AND BPF_F_RDONLY_PROG \<noteq> BPF_F_RDONLY_PROG"
proof -
  have t: "createMaps_type example_platform example_devmap_def = BPF_MAP_TYPE_DEVMAP"
    by (simp add: createMaps_type_def map_def_simps map_type_defs)
  have f0: "map_flags example_devmap_def = 0" by (simp add: map_def_simps)
  have r: "snd (snd (createMaps_fd example_platform fresh_kernel ''test_'' ''foo''
               example_devmap_def ''m'' []))
     = [Syscall (access ''/sys/fs/bpf/test_map_foo_m''),
        Syscall (BPF_MAP_CREATE BPF_MAP_TYPE_DEVMAP 4 4 64 0 ''m'')]"
    by (simp add: fresh_fd)
  have n: "(0 :: 32 word) AND BPF_F_RDONLY_PROG \<noteq> BPF_F_RDONLY_PROG"
    by (simp add: BPF_F_RDONLY_PROG_def)
  from t f0 r n show ?thesis by blast
qed

text \<open>
  Claim C5, as the code has it. For a map definition whose type, after the downgrade, is a
  device map or a device-map hash, the flag \<open>BPF_F_RDONLY_PROG\<close> is ORed into the flags the
  loader expects of the live map, not into the flags of the request that creates it:
  a map that is not reused is created with the definition's own flags. Whenever the step
  accepts the map, created or reused, the flags the kernel reports for its descriptor are
  the definition's flags with \<open>BPF_F_RDONLY_PROG\<close> ORed in, so they include the flag.
\<close>

theorem devmap_flags_include_rdonly_prog:
  assumes i: "i < length md" and z: "zero (md ! i) = 0" and x: "\<not> excluded_map pf (md ! i)"
    and dev: "createMaps_type pf (md ! i) = BPF_MAP_TYPE_DEVMAP \<or>
              createMaps_type pf (md ! i) = BPF_MAP_TYPE_DEVMAP_HASH"
    and fd: "createMaps_fd pf K pfx objName (md ! i) (mapNames ! i) tr = (reuse, f, tr1)"
    and acc: "createMaps_body pf K objName pfx md mapNames i (ret, mapFds, tr)
                = Next (ret', mapFds', tr')"
  shows "desired_map_flags (md ! i) (createMaps_type pf (md ! i))
           = map_flags (md ! i) OR BPF_F_RDONLY_PROG \<and>
         (\<not> reuse \<longrightarrow>
            tr1 = tr @ [Syscall (access (mapPinLoc pfx objName (md ! i) (mapNames ! i))),
                        Syscall (BPF_MAP_CREATE (createMaps_type pf (md ! i)) (key_size (md ! i))
                          (value_size (md ! i))
                          (createMaps_max_entries pf (md ! i) (createMaps_type pf (md ! i)))
                          (map_flags (md ! i)) (take 15 (mapNames ! i)))]) \<and>
         mapFds' = mapFds @ [rv f] \<and>
         rv (K (tr1 @ take 4 (map_attr_queries (rv f))) (bpfGetFdMapFlags (rv f)))
           = map_flags (md ! i) OR BPF_F_RDONLY_PROG \<and>
         rv (K (tr1 @ take 4 (map_attr_queries (rv f))) (bpfGetFdMapFlags (rv f)))
           AND BPF_F_RDONLY_PROG = BPF_F_RDONLY_PROG"
proof -
  have d: "desired_map_flags (md ! i) (createMaps_type pf (md ! i))
           = map_flags (md ! i) OR BPF_F_RDONLY_PROG"
    using dev by (auto simp: desired_map_flags_def)
  have a: "\<not> kernelVersion pf < bpf_map_def.min_kver (md ! i)"
    "\<not> bpf_map_def.max_kver (md ! i) \<le> kernelVersion pf"
    using x by (auto simp: excluded_map_def)
  have ok: "ok (rv f)"
    using acc i z a fd by (auto simp: createMaps_body_def split: if_splits)
  from acc have m: "live_map_attrs K (rv f) tr1
      = desired_map_attrs pf (md ! i) (createMaps_type pf (md ! i))"
    and p: "mapFds' = mapFds @ [rv f]"
    unfolding createMaps_body_included[OF i z x fd ok]
    by (auto simp: Let_def sys_def split: if_splits prod.splits)
  from m have "rv (K (tr1 @ take 4 (map_attr_queries (rv f))) (bpfGetFdMapFlags (rv f)))
           = map_flags (md ! i) OR BPF_F_RDONLY_PROG"
    by (simp add: live_map_attrs_def desired_map_attrs_def d)
  moreover have "\<not> reuse \<longrightarrow>
            tr1 = tr @ [Syscall (access (mapPinLoc pfx objName (md ! i) (mapNames ! i))),
                        Syscall (BPF_MAP_CREATE (createMaps_type pf (md ! i)) (key_size (md ! i))
                          (value_size (md ! i))
                          (createMaps_max_entries pf (md ! i) (createMaps_type pf (md ! i)))
                          (map_flags (md ! i)) (take 15 (mapNames ! i)))]"
    using fd by (auto simp: createMaps_fd_def sys_def Let_def split: if_splits)
  ultimately show ?thesis using d p by (simp add: flag_included)
qed

theorem devmap_flags_include_rdonly_prog_witness:
  "createMaps_type example_platform ([example_devmap_def] ! 0) = BPF_MAP_TYPE_DEVMAP \<and>
   createMaps_body example_platform fresh_kernel ''foo'' ''test_'' [example_devmap_def] [''m''] 0
       (0, [], []) = Next (0, [5], example_create_trace) \<and>
   map_flags example_devmap_def = 0 \<and>
   rv (fresh_kernel ([Syscall (access ''/sys/fs/bpf/test_map_foo_m''),
         Syscall (BPF_MAP_CREATE BPF_MAP_TYPE_DEVMAP 4 4 64 0 ''m'')] @ take 4 (map_attr_queries 5))
        (bpfGetFdMapFlags 5)) = BPF_F_RDONLY_PROG"
proof -
  let ?md = "[example_devmap_def]"
  have i: "0 < length ?md" by simp
  have z: "zero (?md ! 0) = 0" by (simp add: map_def_simps)
  have x: "\<not> excluded_map example_platform (?md ! 0)"
    by (simp add: excluded_map_def pf_simps map_def_simps)
  have t: "createMaps_type example_platform (?md ! 0) = BPF_MAP_TYPE_DEVMAP"
    by (simp add: createMaps_type_def map_def_simps map_type_defs)
  have fd: "createMaps_fd example_platform fresh_kernel ''test_'' ''foo'' (?md ! 0)
       ([''m''] ! 0) [] = (False, no_reply\<lparr>rv := 5, errno := 0\<rparr>,
        [Syscall (access ''/sys/fs/bpf/test_map_foo_m''),
         Syscall (BPF_MAP_CREATE BPF_MAP_TYPE_DEVMAP 4 4 64 0 ''m'')])"
    using fresh_fd by simp
  have f0: "map_flags example_devmap_def = 0" by (simp add: map_def_simps)
  from devmap_flags_include_rdonly_prog[OF i z x disjI1[OF t] fd fresh_body]
  have "rv (fresh_kernel ([Syscall (access ''/sys/fs/bpf/test_map_foo_m''),
         Syscall (BPF_MAP_CREATE BPF_MAP_TYPE_DEVMAP 4 4 64 0 ''m'')]
         @ take 4 (map_attr_queries (rv (no_reply\<lparr>rv := 5, errno := 0\<rparr>))))
        (bpfGetFdMapFlags (rv (no_reply\<lparr>rv := 5, errno := 0\<rparr>))))
        = map_flags ([example_devmap_def] ! 0) OR BPF_F_RDONLY_PROG"
    by blast
  with f0 have r: "rv (fresh_kernel ([Syscall (access ''/sys/fs/bpf/test_map_foo_m''),
         Syscall (BPF_MAP_CREATE BPF_MAP_TYPE_DEVMAP 4 4 64 0 ''m'')] @ take 4 (map_attr_queries 5))
        (bpfGetFdMapFlags 5)) = BPF_F_RDONLY_PROG"
    by simp
  from t fresh_body f0 r show ?thesis by blast
qed


subsection \<open>Installing the programs\<close>


lemma loadCodeSections_body_rejected:
  assumes d: "prog_def (cs ! i) = Some d" and x: "\<not> excluded_prog pf d"
    and new: "rv (K tr (access (progPinLoc pfx objName (cs ! i)))) \<noteq> 0"
    and f: "f = K (tr @ [Syscall (access (progPinLoc pfx objName (cs ! i)))])
                  (prog_load_req pf license (cs ! i))"
    and rej: "\<not> ok (rv f)"
  shows "loadCodeSections_body pf K objName license pfx i (cs, tr) =
     (if optional d
      then Next (cs[i := (cs ! i)\<lparr>prog_fd := rv f\<rparr>],
                 tr @ [Syscall (access (progPinLoc pfx objName (cs ! i))),
                       Syscall (prog_load_req pf license (cs ! i))]
                    @ verifier_log (log_buf f)
                    @ [ALOGW ''failed program is marked optional - continuing...''])
      else Exit (rv f, cs[i := (cs ! i)\<lparr>prog_fd := rv f\<rparr>],
                 tr @ [Syscall (access (progPinLoc pfx objName (cs ! i))),
                       Syscall (prog_load_req pf license (cs ! i))]
                    @ verifier_log (log_buf f)
                    @ [ALOGE ''non-optional program failed to load.'']))"
proof -
  have a: "\<not> kernelVersion pf < bpf_prog_def.min_kver d"
    "\<not> bpf_prog_def.max_kver d \<le> kernelVersion pf"
    using x by (auto simp: excluded_prog_def)
  show ?thesis
    using d a new rej unfolding f
    by (simp add: loadCodeSections_body_def Let_def sys_def)
qed

lemma not_ok_nonzero: "\<not> ok fd \<Longrightarrow> fd \<noteq> 0"
  by (auto simp: ok_def)

lemma loadCodeSections_body_keeps_defs:
  assumes "loadCodeSections_body pf K objName license pfx i (cs, tr) = Next (cs', tr')"
  shows "map prog_def cs' = map prog_def cs"
proof -
  have u: "map prog_def (cs[i := (cs ! i)\<lparr>prog_fd := x\<rparr>]) = map prog_def cs" for x
    by (simp add: map_update list_update_same_conv) (metis length_map list_update_beyond list_update_id nth_map not_le)
  show ?thesis
    using assms
    by (auto simp: loadCodeSections_body_def Let_def sys_def u
        split: option.splits if_splits prod.splits)
qed

lemma loadCodeSections_loop_keeps_defs:
  "for_each (loadCodeSections_body pf K objName license pfx) [0..<n] (cs0, tr0) = Next (cs, tr)
   \<Longrightarrow> map prog_def cs = map prog_def cs0"
proof (induction n arbitrary: cs tr)
  case 0
  then show ?case by simp
next
  case (Suc n)
  from Suc.prems obtain cs1 tr1 where
    a: "for_each (loadCodeSections_body pf K objName license pfx) [0..<n] (cs0, tr0) = Next (cs1, tr1)"
    and b: "loadCodeSections_body pf K objName license pfx n (cs1, tr1) = Next (cs, tr)"
    by (auto simp: for_each_append split: flow.splits)
  from Suc.IH[OF a] loadCodeSections_body_keeps_defs[OF b] show ?case by simp
qed




lemma pinLoc_a: "progPinLoc ''test_'' ''foo'' example_cs_optional = ''/sys/fs/bpf/test_prog_foo_tracepoint_a''"
  by (simp add: progPinLoc_def BPF_FS_PATH_def example_cs_optional_def example_cs_a_def substr0_def)







text \<open>
  Claim C7. The loop of \<open>loadCodeSections\<close> has reached a code section whose program
  definition admits the running kernel and whose pin does not exist, and the kernel
  rejects the \<open>BPF_PROG_LOAD\<close> request. Then the verifier's log is logged line by line
  between the BEGIN and END lines; if the definition is optional the loop goes on with
  the next section, and otherwise \<open>loadCodeSections\<close> returns the rejected descriptor's
  value, which is not 0.
\<close>

theorem verifier_rejection_continues_iff_optional:
  assumes reach: "for_each (loadCodeSections_body pf K (pathToObjName elfPath) license pfx)
                    [0..<i] (cs0, tr0) = Next (cs, tr)"
    and i: "i < length cs0" and kv: "kernelVersion pf \<noteq> 0"
    and d: "prog_def (cs ! i) = Some d" and x: "\<not> excluded_prog pf d"
    and new: "rv (K tr (access (progPinLoc pfx (pathToObjName elfPath) (cs ! i)))) \<noteq> 0"
    and f: "f = K (tr @ [Syscall (access (progPinLoc pfx (pathToObjName elfPath) (cs ! i)))])
                  (prog_load_req pf license (cs ! i))"
    and rej: "\<not> ok (rv f)"
  shows "(let cs' = cs[i := (cs ! i)\<lparr>prog_fd := rv f\<rparr>];
              tr' = tr @ [Syscall (access (progPinLoc pfx (pathToObjName elfPath) (cs ! i))),
                          Syscall (prog_load_req pf license (cs ! i)),
                          ALOGW ''BPF_PROG_LOAD - BEGIN log_buf contents:'']
                       @ map ALOGW (Split (log_buf f) [CHR 0x0A])
                       @ [ALOGW ''BPF_PROG_LOAD - END log_buf contents.'']
          in if optional d
             then loadCodeSections_body pf K (pathToObjName elfPath) license pfx i (cs, tr)
                    = Next (cs', tr' @ [ALOGW ''failed program is marked optional - continuing...''])
             else loadCodeSections_body pf K (pathToObjName elfPath) license pfx i (cs, tr)
                    = Exit (rv f, cs', tr' @ [ALOGE ''non-optional program failed to load.'']) \<and>
                  loadCodeSections pf K elfPath cs0 license pfx tr0
                    = (rv f, cs', tr' @ [ALOGE ''non-optional program failed to load.''])) \<and>
         rv f \<noteq> 0"
proof -
  let ?body = "loadCodeSections_body pf K (pathToObjName elfPath) license pfx"
  let ?cs' = "cs[i := (cs ! i)\<lparr>prog_fd := rv f\<rparr>]"
  let ?tr' = "tr @ [Syscall (access (progPinLoc pfx (pathToObjName elfPath) (cs ! i))),
                        Syscall (prog_load_req pf license (cs ! i)),
                        ALOGW ''BPF_PROG_LOAD - BEGIN log_buf contents:'']
                     @ map ALOGW (Split (log_buf f) [CHR 0x0A])
                     @ [ALOGW ''BPF_PROG_LOAD - END log_buf contents.'']"
  note s = loadCodeSections_body_rejected[OF d x new f rej]
  have o: "optional d \<Longrightarrow> ?body i (cs, tr)
      = Next (?cs', ?tr' @ [ALOGW ''failed program is marked optional - continuing...''])"
    by (simp add: s verifier_log_def)
  have n: "?body i (cs, tr) = Exit (rv f, ?cs', ?tr' @ [ALOGE ''non-optional program failed to load.''])"
    if "\<not> optional d"
    using that by (simp add: s verifier_log_def)
  have w: "loadCodeSections pf K elfPath cs0 license pfx tr0
      = (rv f, ?cs', ?tr' @ [ALOGE ''non-optional program failed to load.''])"
    if "\<not> optional d"
  proof -
    have "for_each ?body [0..<length cs0] (cs0, tr0)
        = Exit (rv f, ?cs', ?tr' @ [ALOGE ''non-optional program failed to load.''])"
      using for_each_reach[OF i reach] n[OF that] by simp
    then show ?thesis using kv by (simp add: loadCodeSections_def Let_def)
  qed
  have "rv f \<noteq> 0" using rej by (rule not_ok_nonzero)
  with o n w show ?thesis unfolding Let_def by (cases "optional d") simp_all
qed

theorem verifier_rejection_continues_iff_optional_witness:
  "prog_def ([example_cs_optional] ! 0) = Some (example_prog_def\<lparr>optional := True\<rparr>) \<and>
   \<not> ok (rv (rejecting_kernel [Syscall (access ''/sys/fs/bpf/test_prog_foo_tracepoint_a'')]
               (prog_load_req example_platform ''GPL'' example_cs_optional))) \<and>
   loadCodeSections example_platform rejecting_kernel ''foo.o'' [example_cs_optional] ''GPL''
       ''test_'' []
     = (0, [example_cs_optional], example_reject_trace)"
proof -
  let ?cs = "[example_cs_optional]"
  let ?d = "example_prog_def\<lparr>optional := True\<rparr>"
  let ?body = "loadCodeSections_body example_platform rejecting_kernel (pathToObjName ''foo.o'')
      ''GPL'' ''test_''"
  define f where "f = rejecting_kernel
      ([] @ [Syscall (access (progPinLoc ''test_'' (pathToObjName ''foo.o'') (?cs ! 0)))])
      (prog_load_req example_platform ''GPL'' (?cs ! 0))"
  have fv: "f = no_reply\<lparr>errno := 13, log_buf := ''R0 !read_ok'' @ [CHR 0x0A] @ ''processed 1 insns''\<rparr>"
    by (simp add: f_def rejecting_kernel_def prog_load_req_def)
  have reach: "for_each ?body [0..<0] (?cs, []) = Next (?cs, [])" by simp
  have i: "0 < length ?cs" by simp
  have kv: "kernelVersion example_platform \<noteq> 0" by (simp add: pf_simps)
  have d: "prog_def (?cs ! 0) = Some ?d" by (simp add: example_cs_optional_def)
  have x: "\<not> excluded_prog example_platform ?d"
    by (simp add: excluded_prog_def pf_simps example_prog_def_def)
  have new: "rv (rejecting_kernel [] (access (progPinLoc ''test_'' (pathToObjName ''foo.o'') (?cs ! 0)))) \<noteq> 0"
    by (simp add: rejecting_kernel_def no_reply_def)
  have rej: "\<not> ok (rv f)" by (simp add: fv no_reply_def ok_def)
  have opt: "optional ?d" by simp
  have fd: "example_cs_optional\<lparr>prog_fd := rv f\<rparr> = example_cs_optional"
    by (simp add: fv no_reply_def example_cs_optional_def example_cs_a_def)
  have lines: "Split (log_buf f) [CHR 0x0A] = [''R0 !read_ok'', ''processed 1 insns'']"
    by (simp add: fv)
  from verifier_rejection_continues_iff_optional[OF reach i kv d x new f_def rej] opt
  have s: "?body 0 (?cs, []) = Next (?cs, example_reject_trace)"
    by (simp add: Let_def fd lines example_reject_trace_def objName_foo pinLoc_a)
  have "for_each ?body [0..<length ?cs] (?cs, []) = Next (?cs, example_reject_trace)"
    using s by (simp add: upt_rec)
  then have r: "loadCodeSections example_platform rejecting_kernel ''foo.o'' ?cs ''GPL'' ''test_'' []
     = (0, ?cs, example_reject_trace)"
    using kv by (simp add: loadCodeSections_def Let_def)
  have rj: "\<not> ok (rv (rejecting_kernel [Syscall (access ''/sys/fs/bpf/test_prog_foo_tracepoint_a'')]
               (prog_load_req example_platform ''GPL'' example_cs_optional)))"
    using rej by (simp add: f_def objName_foo pinLoc_a)
  from d rj r show ?thesis by blast
qed

text \<open>
  Claim C6, as the code has it. A code section without a program definition is never
  loaded: when the loop of \<open>loadCodeSections\<close> reaches it, the function returns
  \<open>-EINVAL\<close>, whatever the \<open>progs\<close> section holds.
\<close>

theorem missing_prog_def_fails_load:
  assumes reach: "for_each (loadCodeSections_body pf K (pathToObjName elfPath) license pfx)
                    [0..<i] (cs0, tr0) = Next (cs, tr)"
    and i: "i < length cs0" and nodef: "prog_def (cs0 ! i) = None"
  shows "fst (loadCodeSections pf K elfPath cs0 license pfx tr0) = - EINVAL \<and> - EINVAL \<noteq> (0 :: c_int)"
proof -
  have "map prog_def cs = map prog_def cs0" using reach by (rule loadCodeSections_loop_keeps_defs)
  then have "prog_def (cs ! i) = prog_def (cs0 ! i)" "length cs = length cs0"
    using i by (metis nth_map length_map)+
  with nodef have s: "loadCodeSections_body pf K (pathToObjName elfPath) license pfx i (cs, tr)
      = Exit (- EINVAL, cs, tr)"
    by (simp add: loadCodeSections_body_def)
  have "for_each (loadCodeSections_body pf K (pathToObjName elfPath) license pfx)
      [0..<length cs0] (cs0, tr0) = Exit (- EINVAL, cs, tr)"
    using for_each_reach[OF i reach] s by simp
  then have "fst (loadCodeSections pf K elfPath cs0 license pfx tr0) = - EINVAL"
    by (simp add: loadCodeSections_def Let_def)
  then show ?thesis by (simp add: EINVAL_def)
qed

theorem missing_prog_def_fails_load_witness:
  "prog_def ([example_cs_no_def] ! 0) = None \<and>
   fst (loadCodeSections example_platform fresh_kernel ''foo.o'' [example_cs_no_def] ''GPL''
          ''test_'' []) = - EINVAL"
proof -
  let ?cs = "[example_cs_no_def]"
  have reach: "for_each (loadCodeSections_body example_platform fresh_kernel
      (pathToObjName ''foo.o'') ''GPL'' ''test_'') [0..<0] (?cs, []) = Next (?cs, [])" by simp
  have i: "0 < length ?cs" by simp
  have n: "prog_def (?cs ! 0) = None" by (simp add: example_cs_no_def_def)
  from missing_prog_def_fails_load[OF reach i n] n show ?thesis by simp
qed

lemma ep_hdr: "readSectionHeadersAll example_elf_empty_progs = (0, [shdr 0, shdr 2, shdr 3, shdr 8])"
  by (simp add: example_elf_empty_progs_def readable_elf_def)

lemma ep_pd: "readProgDefs example_abi example_elf_empty_progs = (0, [])"
  by (simp add: readProgDefs_def example_elf_empty_progs_def readable_defs records_of_def
      example_abi_def)

lemma ep_names: "getSectionSymNames example_elf_empty_progs ''progs'' None = (0, [])"
  by (simp add: getSectionSymNames_def example_elf_empty_progs_def readable_defs)

lemma ep_func:
  "getSectionSymNames example_elf_empty_progs ''tracepoint/f'' (Some STT_FUNC) = (0, [''f''])"
  by (simp add: getSectionSymNames_def example_elf_empty_progs_def readable_defs STT_FUNC_def
      ELF_ST_TYPE_def)

lemma ep_maps: "getSectionSymNames example_elf_empty_progs ''maps'' None = (- 1, [])"
  by (simp add: getSectionSymNames_def example_elf_empty_progs_def readable_defs)

lemma ep_getSymName:
  "getSymName example_elf_empty_progs 0 = (0, [])"
  "getSymName example_elf_empty_progs 2 = (0, ''progs'')"
  "getSymName example_elf_empty_progs 3 = (0, ''tracepoint/f'')"
  "getSymName example_elf_empty_progs 8 = (0, ''license'')"
  by (simp_all add: example_elf_empty_progs_def readable_defs)

lemma ep_bytes:
  "readSectionByIdx example_elf_empty_progs 2 = (0, [0x95, 0, 0, 0, 0, 0, 0, 0])"
  by (simp_all add: example_elf_empty_progs_def readable_defs)

lemma ep_byName:
  "readSectionByName example_elf_empty_progs ''critical'' = (- 2, [])"
  "readSectionByName example_elf_empty_progs ''license'' = (0, [0x47, 0x50, 0x4c, 0])"
  "readSectionByName example_elf_empty_progs ''maps'' = (- 2, [])"
  by (simp_all add: example_elf_empty_progs_def readable_defs)

lemma getSectionType_more:
  "getSectionType example_platform ''license'' = BPF_PROG_TYPE_UNSPEC"
  "getSectionType example_platform ''tracepoint/f'' = BPF_PROG_TYPE_TRACEPOINT"
  using tracepoint_x[of example_platform "''f''"]
  by (simp_all add: getSectionType_def sectionNameTypes_def StartsWith_def example_platform_def)

lemma getExpectedAttachType_f: "getExpectedAttachType ''tracepoint/f'' = BPF_ATTACH_TYPE_UNSPEC"
  by (simp add: getExpectedAttachType_def sectionNameTypes_def StartsWith_def)

lemma ep_read:
  "readCodeSections example_platform example_abi example_elf_empty_progs None
     = Return (0, [example_cs_no_def])"
proof -
  let ?sh = "[shdr 0, shdr 2, shdr 3, shdr 8]"
  let ?body = "readCodeSections_body example_platform example_elf_empty_progs None ?sh [] []
      (length ?sh)"
  have ne: "BPF_PROG_TYPE_TRACEPOINT \<noteq> BPF_PROG_TYPE_UNSPEC"
    by (simp add: BPF_PROG_TYPE_TRACEPOINT_def BPF_PROG_TYPE_UNSPEC_def)
  have s0: "?body 0 [] = Next []"
    by (simp add: readCodeSections_body_def shdr_def ep_getSymName getSectionType_other)
  have s1: "?body 1 [] = Next []"
    by (simp add: readCodeSections_body_def shdr_def ep_getSymName getSectionType_other)
  have s2: "?body 2 [] = Next [example_cs_no_def]"
    by (simp add: readCodeSections_body_def shdr_def ep_getSymName getSectionType_more ne
        IsAllowed_def ep_bytes ep_func find_prog_def_def getExpectedAttachType_f
        replace_slashes_def example_cs_no_def_def example_cs_a_def)
  have s3: "?body 3 [example_cs_no_def] = Next [example_cs_no_def]"
    by (simp add: readCodeSections_body_def shdr_def ep_getSymName getSectionType_more)
  have l: "[0..<length ?sh] = [0, 1, 2, 3]" by (simp add: upt_rec)
  have "for_each ?body [0..<length ?sh] [] = Next [example_cs_no_def]"
    unfolding l by (simp only: for_each.simps s0 s1 s2 s3 flow.case)
  then show ?thesis
    by (simp add: readCodeSections_def ep_hdr ep_pd ep_names Let_def
        getSectionSymNames_ok_stream[OF ep_names])
qed

text \<open>
  Claim C6 as stated fails: with an empty \<open>progs\<close> section the code section is kept by
  \<open>readCodeSections\<close> without a program definition, and the load of the object then
  fails with \<open>-EINVAL\<close>.
\<close>

theorem empty_progs_missing_def_counterexample:
  "readProgDefs example_abi example_elf_empty_progs = (0, []) \<and>
   readCodeSections example_platform example_abi example_elf_empty_progs None
     = Return (0, [example_cs_no_def]) \<and>
   prog_def example_cs_no_def = None \<and>
   loadProg example_platform example_abi fresh_kernel ''foo.o'' example_elf_empty_progs
       example_location []
     = Return (- EINVAL, False, [])"
proof -
  have m: "createMaps example_platform example_abi fresh_kernel ''foo.o'' example_elf_empty_progs
      [] ''test_'' [] = Return (0, [], [])"
    by (simp add: createMaps_def ep_byName)
  have a: "applyMapRelo example_elf_empty_progs [] [example_cs_no_def] = Return [example_cs_no_def]"
    by (simp add: applyMapRelo_def ep_maps)
  have n: "prog_def example_cs_no_def = None" by (simp add: example_cs_no_def_def)
  have l: "loadCodeSections example_platform fresh_kernel ''foo.o'' [example_cs_no_def]
      (c_str [0x47, 0x50, 0x4c, 0]) ''test_'' [] = (- EINVAL, [example_cs_no_def], [])"
    by (simp add: loadCodeSections_def pf_simps loadCodeSections_body_def n upt_rec)
  have o: "is_open example_elf_empty_progs"
    by (simp add: example_elf_empty_progs_def readable_elf_def)
  have "loadProg example_platform example_abi fresh_kernel ''foo.o'' example_elf_empty_progs
       example_location [] = Return (- EINVAL, False, [])"
    by (simp add: loadProg_def o ep_byName ep_read example_location_def m a l stream_after_def
        getSectionSymNames_ok_stream[OF ep_names])
  with ep_pd ep_read n show ?thesis by blast
qed

subsection \<open>A complete load\<close>

lemma c_str_GPL: "c_str [0x47, 0x50, 0x4c, 0] = ''GPL''"
  by (simp add: c_str_def char_of_def bit_numeral_simps bit_Suc_0_iff)

lemma example_elf_pd: "readProgDefs example_abi example_elf = (0, [example_prog_def])"
  by (simp add: readProgDefs_def example_elf_byName records_of_def)
     (simp add: example_abi_def example_prog_def_bytes_def example_prog_def_def le_word_def)

lemma example_elf_hdr: "readSectionHeadersAll example_elf = (0, [shdr 0, shdr 1, shdr 2, shdr 3, shdr 4, shdr 8])"
  by (simp add: example_elf_def readable_elf_def)

lemma example_elf_getSymName:
  "getSymName example_elf 0 = (0, [])"
  "getSymName example_elf 1 = (0, ''maps'')"
  "getSymName example_elf 2 = (0, ''progs'')"
  "getSymName example_elf 3 = (0, ''tracepoint/f'')"
  "getSymName example_elf 4 = (0, ''.reltracepoint/f'')"
  "getSymName example_elf 8 = (0, ''license'')"
  by (simp_all add: example_elf_def readable_defs)

lemma example_elf_byIdx:
  "readSectionByIdx example_elf 3 = (0, example_insns)"
  "readSectionByIdx example_elf 4 = (0, example_rel_data)"
  by (simp_all add: example_elf_def readable_defs)

lemma getSectionType_names:
  "getSectionType example_platform ''maps'' = BPF_PROG_TYPE_UNSPEC"
  "getSectionType example_platform ''.reltracepoint/f'' = BPF_PROG_TYPE_UNSPEC"
  by (simp_all add: getSectionType_def sectionNameTypes_def StartsWith_def example_platform_def)

lemma example_elf_read:
  "readCodeSections example_platform example_abi example_elf None = Return (0, [example_cs_f])"
proof -
  let ?sh = "[shdr 0, shdr 1, shdr 2, shdr 3, shdr 4, shdr 8]"
  let ?body = "readCodeSections_body example_platform example_elf None ?sh [example_prog_def]
      [''f_def''] (length ?sh)"
  have ne: "BPF_PROG_TYPE_TRACEPOINT \<noteq> BPF_PROG_TYPE_UNSPEC"
    by (simp add: BPF_PROG_TYPE_TRACEPOINT_def BPF_PROG_TYPE_UNSPEC_def)
  have s0: "?body 0 [] = Next []" "?body 1 [] = Next []" "?body 2 [] = Next []"
    by (simp_all add: readCodeSections_body_def shdr_def example_elf_getSymName getSectionType_other
        getSectionType_names)
  have s3: "?body 3 [] = Next [example_cs_f]"
    by (simp add: readCodeSections_body_def shdr_def example_elf_getSymName getSectionType_more ne
        IsAllowed_def example_elf_byIdx example_elf_names find_prog_def_def getExpectedAttachType_f
        replace_slashes_def example_cs_f_def example_insns_def)
  have s4: "?body 4 [example_cs_f] = Next [example_cs_f]" "?body 5 [example_cs_f] = Next [example_cs_f]"
    by (simp_all add: readCodeSections_body_def shdr_def example_elf_getSymName getSectionType_more
        getSectionType_names)
  have l: "[0..<length ?sh] = [0, 1, 2, 3, 4, 5]" by (simp add: upt_rec)
  have "for_each ?body [0..<length ?sh] [] = Next [example_cs_f]"
    unfolding l by (simp only: for_each.simps s0 s3 s4 flow.case)
  then show ?thesis
    by (simp add: readCodeSections_def example_elf_hdr example_elf_pd example_elf_names Let_def
        getSectionSymNames_ok_stream[OF example_elf_names(2)])
qed

lemma example_elf_map_body:
  "createMaps_body example_platform fresh_kernel ''foo'' ''test_'' [example_map_def] [''m''] 0
       (0, [], []) = Next (0, [5], example_map_trace)"
proof -
  let ?md = "[example_map_def]"
  let ?tr1 = "[Syscall (access ''/sys/fs/bpf/test_map_foo_m''),
         Syscall (BPF_MAP_CREATE BPF_MAP_TYPE_HASH 4 8 64 0 ''m'')]"
  have i: "0 < length ?md" by simp
  have z: "zero (?md ! 0) = 0" by (simp add: map_def_simps)
  have x: "\<not> excluded_map example_platform (?md ! 0)"
    by (simp add: excluded_map_def pf_simps map_def_simps)
  have fd: "createMaps_fd example_platform fresh_kernel ''test_'' ''foo'' (?md ! 0)
       ([''m''] ! 0) [] = (False, no_reply\<lparr>rv := 5, errno := 0\<rparr>, ?tr1)"
    by (simp add: createMaps_fd_def sys_def fresh_kernel_def mapPinLoc_def BPF_FS_PATH_def
      map_def_simps no_reply_def createMaps_type_def createMaps_max_entries_def map_type_defs)
  have ok: "ok (rv (no_reply\<lparr>rv := 5, errno := 0\<rparr>))" by (simp add: ok_def)
  have live: "live_map_attrs fresh_kernel 5 ?tr1 = (1, 4, 8, 64, 0)"
    by (simp add: live_map_attrs_def fresh_kernel_def created_attr_def map_attr_queries_def
      no_reply_def map_type_defs)
  have want: "desired_map_attrs example_platform example_map_def
       (createMaps_type example_platform example_map_def) = (1, 4, 8, 64, 0)"
    by (simp add: desired_map_attrs_def createMaps_type_def desired_max_entries_def
      desired_map_flags_def map_def_simps map_type_defs)
  show ?thesis
    unfolding createMaps_body_included[OF i z x fd ok]
    by (simp add: live want)
       (simp add: sys_def fresh_kernel_def no_reply_def mapPinLoc_def BPF_FS_PATH_def
          map_def_simps example_map_trace_def Let_def)
qed

lemma example_elf_maps:
  "createMaps example_platform example_abi fresh_kernel ''foo.o'' example_elf [] ''test_'' []
     = Return (0, [5], example_map_trace)"
proof -
  have r: "records_of (sizeof_bpf_map_def example_abi) (as_bpf_map_def example_abi)
      example_map_def_bytes = [example_map_def]"
    using as_map by (simp add: records_of_def example_abi_def example_map_def_bytes_def)
  have s: "length example_map_def_bytes mod sizeof_bpf_map_def example_abi = 0"
    by (simp add: example_abi_def example_map_def_bytes_def)
  show ?thesis
    by (simp add: createMaps_def example_elf_byName example_elf_names s r objName_foo example_elf_map_body)
qed

lemma example_elf_relo:
  "applyMapRelo example_elf [5] [example_cs_f]
     = Return [example_cs_f\<lparr>data := [0x18, 0x11, 0, 0, 5, 0, 0, 0, 0, 0, 0, 0, 0, 0, 0, 0]\<rparr>]"
proof -
  have f: "insn_code example_insns 0 = (BPF_LD OR BPF_IMM OR BPF_DW)"
    by (simp add: example_insns_def insn_code_def BPF_LD_def BPF_IMM_def BPF_DW_def)
  have g: "applyRelo example_insns 0 5 = Return [0x18, 0x11, 0, 0, 5, 0, 0, 0, 0, 0, 0, 0, 0, 0, 0, 0]"
    by (simp add: applyRelo_def f insnIndex_def sizeof_bpf_insn_def)
       (simp add: example_insns_def set_insn_src_reg_def set_insn_imm_def sizeof_bpf_insn_def
          BPF_PSEUDO_MAP_FD_def)
  have h: "applyMapRelo_entry example_elf [''m''] [5] example_rel_data 0 example_insns
     = Next [0x18, 0x11, 0, 0, 5, 0, 0, 0, 0, 0, 0, 0, 0, 0, 0, 0]"
    by (simp add: applyMapRelo_entry_def example_rel example_elf_sym g)
  have n: "n_rel example_rel_data = 1"
    by (simp add: n_rel_def example_rel_data_def sizeof_Elf64_Rel_def)
  have k: "applyMapRelo_section example_elf [''m''] [5] 0 [example_cs_f]
     = Next [example_cs_f\<lparr>data := [0x18, 0x11, 0, 0, 5, 0, 0, 0, 0, 0, 0, 0, 0, 0, 0, 0]\<rparr>]"
    by (simp add: applyMapRelo_section_def example_cs_f_def n h)
  show ?thesis
    by (simp add: applyMapRelo_def example_elf_names k)
qed

lemma example_elf_load:
  "loadCodeSections example_platform fresh_kernel ''foo.o''
       [example_cs_f\<lparr>data := [0x18, 0x11, 0, 0, 5, 0, 0, 0, 0, 0, 0, 0, 0, 0, 0, 0]\<rparr>] ''GPL''
       ''test_'' example_map_trace
     = (0, [example_cs_loaded], example_load_trace)"
proof -
  let ?c = "example_cs_f\<lparr>data := [0x18, 0x11, 0, 0, 5, 0, 0, 0, 0, 0, 0, 0, 0, 0, 0, 0]\<rparr>"
  have p: "progPinLoc ''test_'' ''foo'' ?c = ''/sys/fs/bpf/test_prog_foo_tracepoint_f''"
    by (simp add: progPinLoc_def BPF_FS_PATH_def example_cs_f_def substr0_def)
  have q: "prog_load_req example_platform ''GPL'' ?c =
      BPF_PROG_LOAD BPF_PROG_TYPE_TRACEPOINT 0x50a00 ''GPL''
                 [0x18, 0x11, 0, 0, 5, 0, 0, 0, 0, 0, 0, 0, 0, 0, 0, 0] 2 1 BPF_LOAD_LOG_SZ
                 BPF_ATTACH_TYPE_UNSPEC ''tracepoint_f''"
    by (simp add: prog_load_req_def example_cs_f_def pf_simps sizeof_bpf_insn_def)
  have d: "prog_def ?c = Some example_prog_def" by (simp add: example_cs_f_def)
  have b: "loadCodeSections_body example_platform fresh_kernel ''foo'' ''GPL'' ''test_'' 0
      ([?c], example_map_trace) = Next ([example_cs_loaded], example_load_trace)"
    by (simp add: loadCodeSections_body_def d pf_simps example_prog_def_def p q sys_def
        fresh_kernel_def no_reply_def ok_def Let_def example_cs_loaded_def
        example_load_trace_def example_map_trace_def)
  show ?thesis
    using b by (simp add: loadCodeSections_def pf_simps objName_foo upt_rec)
qed

text \<open>
  A complete load of the example object on a kernel without pins: the map is created,
  checked and pinned, the instruction is patched with its descriptor, and the program is
  loaded and pinned.
\<close>

lemma loadProg_example:
  "loadProg example_platform example_abi fresh_kernel ''foo.o'' example_elf example_location []
     = Return (0, False, example_load_trace)"
proof -
  have o: "is_open example_elf" by (simp add: example_elf_def readable_elf_def)
  show ?thesis
    by (simp add: loadProg_def o example_elf_byName example_elf_read example_location_def
        example_elf_maps example_elf_relo c_str_GPL example_elf_load stream_after_def
        getSectionSymNames_ok_stream[OF example_elf_names(2)])
qed

text \<open>
  A read of \<open>critical\<close> that fails on the stream leaves it failed: the read of \<open>license\<close>
  then returns -1 and so does \<open>loadProg\<close>, whatever the object holds. And without a
  kernel version \<open>loadCodeSections\<close> logs that and returns \<open>-EINVAL\<close>.
\<close>

lemma loadProg_after_failed_read:
  assumes "is_open elf" and "fst (readSectionByName elf ''critical'') \<noteq> 0"
    and "fst (readSectionByName elf ''critical'') \<noteq> - 2"
  shows "loadProg pf ab K elfPath elf location tr = Return (- 1, False, tr)"
  using assms by (simp add: loadProg_def stream_after_def failed_def Let_def)

lemma loadCodeSections_no_kernel_version:
  assumes "kernelVersion pf = 0"
  shows "loadCodeSections pf K elfPath cs license pfx tr
           = (- EINVAL, cs, tr @ [ALOGE ''unable to get kernel version''])"
  using assms by (simp add: loadCodeSections_def)

end
